theory Spec2Isabelle
  imports Complex_Main
begin

section \<open>Commit Runner: the scene of the game as a state record\<close>

text \<open>
  The repository ships the game twice: \<^verbatim>\<open>src/unnamed/part_000\<close> (charge jump, height-delta
  rule, difficulty scaling, manual collision resolver) and \<^verbatim>\<open>src/game.js\<close> (the simpler
  scene). A definition without suffix embeds the function of \<^verbatim>\<open>part_000\<close>; the suffix
  \<open>_A\<close> marks the function of the same name in \<^verbatim>\<open>game.js\<close>. Where both files hold the
  same text (\<open>handleJumpCharge\<close>, \<open>handleRotation\<close>, \<open>handleCollision\<close>,
  \<open>triggerGameOver\<close>, \<open>createTile\<close>) one definition stands for both. Both scenes are
  values of the one record \<open>scene\<close>; \<^verbatim>\<open>game.js\<close> has fewer fields and its functions leave
  the others untouched.

  JavaScript numbers are modelled as exact rationals (\<^typ>\<open>rat\<close>) and, where the code
  only ever holds integers, as \<^typ>\<open>int\<close>; floating-point rounding is not modelled.
  Drawing, text, textures, colours, the cookie and the background tiles of \<open>tilesGroup\<close>
  have no effect on the simulation and are left out.
\<close>

subsection \<open>Constants: GRID, GAME_CONFIG and the Phaser game configuration\<close>

definition TILE_SIZE :: rat where [simp]: "TILE_SIZE = 13"
definition TILE_FULL_SIZE :: rat where [simp]: "TILE_FULL_SIZE = 15"
definition ROWS :: nat where [simp]: "ROWS = 7"

definition SCROLL_SPEED :: rat where [simp]: "SCROLL_SPEED = 120"
definition JUMP_VELOCITY :: rat where [simp]: "JUMP_VELOCITY = - 400"
definition PLAYER_START_X :: rat where [simp]: "PLAYER_START_X = 150"
definition GAME_OVER_BOUNDARY :: rat where [simp]: "GAME_OVER_BOUNDARY = - TILE_SIZE"
definition JUMP_CHARGE_MAX :: rat where [simp]: "JUMP_CHARGE_MAX = 100"
definition JUMP_CHARGE_COST :: rat where [simp]: "JUMP_CHARGE_COST = 50"
definition JUMP_CHARGE_RATE :: rat where [simp]: "JUMP_CHARGE_RATE = 25"
definition CHARGE_JUMP_MAX_TIME :: rat where [simp]: "CHARGE_JUMP_MAX_TIME = 3 / 2"
definition CHARGE_JUMP_MIN_VELOCITY :: rat where [simp]: "CHARGE_JUMP_MIN_VELOCITY = - 400"
definition CHARGE_JUMP_MAX_VELOCITY :: rat where [simp]: "CHARGE_JUMP_MAX_VELOCITY = - 700"
definition CHARGE_JUMP_HORIZONTAL_VELOCITY :: rat where
  [simp]: "CHARGE_JUMP_HORIZONTAL_VELOCITY = 150"
definition CHARGE_JUMP_SQUASH_HEIGHT :: rat where [simp]: "CHARGE_JUMP_SQUASH_HEIGHT = 1 / 10"

text \<open>\<open>config.width\<close>, \<open>config.height\<close>: what \<open>this.cameras.main\<close> reports.\<close>

definition screenWidth :: rat where [simp]: "screenWidth = 800"
definition screenHeight :: rat where [simp]: "screenHeight = 300"
definition centerY :: rat where [simp]: "centerY = 150"

text \<open>\<open>this.jumpBufferWindow\<close>, set once in \<open>create\<close> and never written again.\<close>

definition jumpBufferWindow :: rat where [simp]: "jumpBufferWindow = 100"

subsection \<open>Numbers that may be undefined\<close>

text \<open>
  \<open>create\<close> calls \<open>generateInitialColumns\<close> before it assigns the generation counters,
  so \<open>generateColumn\<close> reads properties that do not exist yet. A counter is therefore an
  \<^typ>\<open>int option\<close>: \<open>None\<close> stands for \<open>undefined\<close> and for \<open>NaN\<close> (what
  \<open>undefined++\<close> stores). The two behave alike in every use the code makes of them:
  a comparison with either is false, and arithmetic on either gives \<open>NaN\<close>.
\<close>

type_synonym jsnum = "int option"

definition js_lt :: "jsnum \<Rightarrow> jsnum \<Rightarrow> bool" where
  "js_lt a b = (case (a, b) of (Some v, Some w) \<Rightarrow> v < w | _ \<Rightarrow> False)"

definition js_gt :: "jsnum \<Rightarrow> jsnum \<Rightarrow> bool" where
  "js_gt a b = (case (a, b) of (Some v, Some w) \<Rightarrow> v > w | _ \<Rightarrow> False)"

definition js_add :: "jsnum \<Rightarrow> jsnum \<Rightarrow> jsnum" where
  "js_add a b = (case (a, b) of (Some v, Some w) \<Rightarrow> Some (v + w) | _ \<Rightarrow> None)"

definition js_sub :: "jsnum \<Rightarrow> jsnum \<Rightarrow> jsnum" where
  "js_sub a b = (case (a, b) of (Some v, Some w) \<Rightarrow> Some (v - w) | _ \<Rightarrow> None)"

definition js_abs :: "jsnum \<Rightarrow> jsnum" where
  "js_abs a = map_option abs a"

definition js_min :: "jsnum \<Rightarrow> jsnum \<Rightarrow> jsnum" where
  "js_min a b = (case (a, b) of (Some v, Some w) \<Rightarrow> Some (min v w) | _ \<Rightarrow> None)"

definition js_max :: "jsnum \<Rightarrow> jsnum \<Rightarrow> jsnum" where
  "js_max a b = (case (a, b) of (Some v, Some w) \<Rightarrow> Some (max v w) | _ \<Rightarrow> None)"

subsection \<open>The scene\<close>

text \<open>
  The player sprite: \<open>px\<close>, \<open>py\<close> are \<open>player.x\<close>, \<open>player.y\<close> (the sprite's centre),
  \<open>vx\<close>, \<open>vy\<close> are \<open>player.body.velocity\<close>, \<open>displayHeight\<close> is the height given to
  \<open>setDisplaySize\<close> (the width is always \<open>TILE_SIZE\<close>).
\<close>

record player =
  px :: rat
  py :: rat
  vx :: rat
  vy :: rat
  isGrounded :: bool
  canDoubleJump :: bool
  targetRotation :: rat
  isRotating :: bool
  angle :: rat
  displayHeight :: rat

text \<open>
  A green tile: \<open>ox\<close>, \<open>oy\<close> are \<open>tile.x\<close>, \<open>tile.y\<close> (origin \<open>(0, 0)\<close>: the top left
  corner), \<open>active\<close> is false once the tile is destroyed.
\<close>

record obstacle =
  ox :: rat
  oy :: rat
  active :: bool

record scene =
  isGameOver :: bool
  score :: rat
  highScore :: int
  worldX :: rat
  jumpCharge :: rat
  jumpsUsed :: int
  colorWaveTime :: rat
  isChargingJump :: bool
  chargeJumpTime :: rat
  jumpHoldStartTime :: "rat option"
  lastGroundedTime :: rat
  jumpBufferTime :: rat
  isSliding :: bool
  greenObstacles :: "obstacle list"
  player :: player
  consecutiveEmptyColumns :: jsnum
  lastColumnX :: rat
  totalColumnsGenerated :: jsnum
  patternColumnsRemaining :: jsnum
  patternHeight :: jsnum
  previousColumnHeight :: jsnum

subsection \<open>Random draws\<close>

text \<open>
  Modelled from the spec: \<open>Phaser.Math.Between(min, max)\<close> belongs to the Phaser library,
  not to the repository. The spec has the host supply \<open>randomInt(min, max)\<close>, an integer
  drawn uniformly from \<open>[min, max]\<close>; Phaser computes it as
  \<open>Math.floor(Math.random() * (max - min + 1) + min)\<close>. The argument \<open>u\<close> is the value
  \<open>Math.random()\<close> returned, a number with \<open>0 \<le> u < 1\<close>.
\<close>

definition Between :: "int \<Rightarrow> int \<Rightarrow> rat \<Rightarrow> int" where
  "Between lo hi u = \<lfloor>u * of_int (hi - lo + 1) + of_int lo\<rfloor>"

definition BetweenJ :: "int \<Rightarrow> jsnum \<Rightarrow> rat \<Rightarrow> jsnum" where
  "BetweenJ lo hi u = map_option (\<lambda>h. Between lo h u) hi"

text \<open>
  The values \<open>Math.random()\<close> returns during one call of \<open>generateColumn\<close>, by the place
  that asks: \<open>heightDraws k\<close> for the \<open>k\<close>-th pass (from 0) of the height loop
  (\<^verbatim>\<open>game.js\<close> draws once: \<open>heightDraws 0\<close>), \<open>forcedDraw\<close> for the redraw after too many
  empty columns, \<open>patternDraw\<close> for \<open>patternChance\<close>.
\<close>

record draws =
  heightDraws :: "nat \<Rightarrow> rat"
  forcedDraw :: rat
  patternDraw :: rat

definition unitDraw :: "rat \<Rightarrow> bool" where
  "unitDraw u = (0 \<le> u \<and> u < 1)"

definition drawsOK :: "draws \<Rightarrow> bool" where
  "drawsOK d = (list_all (\<lambda>k. unitDraw (heightDraws d k)) [0..<11]
     \<and> unitDraw (forcedDraw d) \<and> unitDraw (patternDraw d))"

subsection \<open>Column generation\<close>

text \<open>\<open>createTile\<close>: only a green tile enters \<open>greenObstacles\<close>.\<close>

definition createTile :: "rat \<Rightarrow> rat \<Rightarrow> bool \<Rightarrow> scene \<Rightarrow> scene" where
  "createTile x y isObstacle s =
     (if isObstacle
      then s\<lparr>greenObstacles := greenObstacles s @ [\<lparr>ox = x, oy = y, active = True\<rparr>]\<rparr>
      else s)"

text \<open>The loop over the rows that ends \<open>generateColumn\<close> in both files.\<close>

definition createColumnTiles :: "rat \<Rightarrow> jsnum \<Rightarrow> scene \<Rightarrow> scene" where
  "createColumnTiles x height s =
     (let bottomY = screenHeight - TILE_SIZE in
      foldl (\<lambda>s' row. createTile x (bottomY - of_nat row * TILE_FULL_SIZE)
                          (js_lt (Some (int row)) height) s')
        s [0..<ROWS])"

text \<open>
  The \<open>do ... while\<close> loop of \<open>generateColumn\<close> in \<^verbatim>\<open>part_000\<close>; \<open>attempts\<close> is the
  counter before the pass. The pass after the tenth failure clamps and leaves the loop.
\<close>

function drawHeight :: "(nat \<Rightarrow> rat) \<Rightarrow> jsnum \<Rightarrow> int \<Rightarrow> nat \<Rightarrow> jsnum" where
  "drawHeight rnd prev maxHeightDiff attempts =
     (let height = Some (Between 0 7 (rnd attempts));
          attempts' = Suc attempts
      in if attempts' > 10
         then js_max (Some 0)
                (js_min (Some 7)
                   (js_min (js_sub prev (Some maxHeightDiff))
                           (js_add prev (Some maxHeightDiff))))
         else if js_gt (js_abs (js_sub height prev)) (Some maxHeightDiff)
              then drawHeight rnd prev maxHeightDiff attempts'
              else height)"
  by pat_completeness auto
termination
  by (relation "measure (\<lambda>(rnd, prev, maxHeightDiff, attempts). 11 - attempts)") auto

declare drawHeight.simps [simp del]

text \<open>
  \<open>generateColumn\<close> of \<^verbatim>\<open>part_000\<close>. The source returns nothing; the model also returns
  the local \<open>height\<close>, so that properties of the generated columns can be stated.
\<close>

definition generateColumn :: "rat \<Rightarrow> draws \<Rightarrow> scene \<Rightarrow> jsnum \<times> scene" where
  "generateColumn x d s =
     (let difficultyLevel = \<lfloor>score s / 200\<rfloor>;
          maxHeightDiff = 2 + difficultyLevel;
          patternMaxFreq = 12 + difficultyLevel * 2;
          (height, s1) =
            (if js_lt (totalColumnsGenerated s) (Some 30) then (Some 7, s)
             else if js_gt (patternColumnsRemaining s) (Some 0)
             then (patternHeight s,
                   s\<lparr>patternColumnsRemaining := js_sub (patternColumnsRemaining s) (Some 1)\<rparr>)
             else
               let h0 = drawHeight (heightDraws d) (previousColumnHeight s) maxHeightDiff 0;
                   (h1, empties) =
                     (if h0 = Some 0
                      then let c = js_add (consecutiveEmptyColumns s) (Some 1)
                           in if js_gt c (Some 2)
                              then (BetweenJ 1
                                      (js_min (Some 7)
                                         (js_add (previousColumnHeight s) (Some maxHeightDiff)))
                                      (forcedDraw d),
                                    Some 0)
                              else (h0, c)
                      else (h0, Some 0));
                   patternChance = Between 1 patternMaxFreq (patternDraw d);
                   remaining =
                     (if patternChance \<le> 3 then 2
                      else if patternChance = patternMaxFreq then 3 else 1)
               in (h1, s\<lparr>consecutiveEmptyColumns := empties,
                         patternHeight := h1,
                         patternColumnsRemaining := Some remaining\<rparr>));
          s2 = s1\<lparr>previousColumnHeight := height,
                  totalColumnsGenerated := js_add (totalColumnsGenerated s1) (Some 1)\<rparr>
      in (height, createColumnTiles x height s2))"

text \<open>\<open>generateColumn\<close> of \<^verbatim>\<open>game.js\<close>.\<close>

definition generateColumn_A :: "rat \<Rightarrow> draws \<Rightarrow> scene \<Rightarrow> jsnum \<times> scene" where
  "generateColumn_A x d s =
     (let (height, s1) =
            (if js_lt (totalColumnsGenerated s) (Some 30) then (Some 7, s)
             else if js_gt (patternColumnsRemaining s) (Some 0)
             then (patternHeight s,
                   s\<lparr>patternColumnsRemaining := js_sub (patternColumnsRemaining s) (Some 1)\<rparr>)
             else
               let h0 = Some (Between 0 7 (heightDraws d 0));
                   (h1, empties) =
                     (if h0 = Some 0
                      then let c = js_add (consecutiveEmptyColumns s) (Some 1)
                           in if js_gt c (Some 2)
                              then (Some (Between 1 7 (forcedDraw d)), Some 0)
                              else (h0, c)
                      else (h0, Some 0));
                   s' = s\<lparr>consecutiveEmptyColumns := empties\<rparr>;
                   patternChance = Between 1 15 (patternDraw d)
               in (h1,
                   if patternChance \<le> 5
                   then s'\<lparr>patternHeight := h1, patternColumnsRemaining := Some 1\<rparr>
                   else if patternChance = 15
                   then s'\<lparr>patternHeight := h1, patternColumnsRemaining := Some 2\<rparr>
                   else s'));
          s2 = s1\<lparr>totalColumnsGenerated := js_add (totalColumnsGenerated s1) (Some 1)\<rparr>
      in (height, createColumnTiles x height s2))"

text \<open>
  Successive calls of \<open>generateColumn\<close> within one session. Between two calls the game
  changes no generation counter; of the other fields \<open>generateColumn\<close> reads only
  \<open>score\<close>, so each call comes with the column's \<open>x\<close>, the score at that moment and the
  random draws. The result lists the heights in the order generated.
\<close>

fun generateColumns :: "(rat \<times> rat \<times> draws) list \<Rightarrow> scene \<Rightarrow> jsnum list \<times> scene" where
  "generateColumns [] s = ([], s)"
| "generateColumns ((x, sc, d) # calls) s =
     (let (h, s1) = generateColumn x d (s\<lparr>score := sc\<rparr>);
          (hs, s2) = generateColumns calls s1
      in (h # hs, s2))"

fun generateColumns_A :: "(rat \<times> rat \<times> draws) list \<Rightarrow> scene \<Rightarrow> jsnum list \<times> scene" where
  "generateColumns_A [] s = ([], s)"
| "generateColumns_A ((x, sc, d) # calls) s =
     (let (h, s1) = generateColumn_A x d (s\<lparr>score := sc\<rparr>);
          (hs, s2) = generateColumns_A calls s1
      in (h # hs, s2))"

text \<open>
  \<open>generateInitialColumns\<close>: \<open>Math.ceil(screenWidth / TILE_FULL_SIZE) + 5\<close> columns, the
  \<open>i\<close>-th at \<open>x = i * TILE_FULL_SIZE\<close> with the draws \<open>ds i\<close>.
\<close>

definition numColumns :: nat where
  "numColumns = nat \<lceil>screenWidth / TILE_FULL_SIZE\<rceil> + 5"

definition generateInitialColumns :: "(nat \<Rightarrow> draws) \<Rightarrow> scene \<Rightarrow> scene" where
  "generateInitialColumns ds s =
     foldl (\<lambda>s' i. let x = of_nat i * TILE_FULL_SIZE
                    in (snd (generateColumn x (ds i) s'))\<lparr>lastColumnX := x\<rparr>)
       s [0..<numColumns]"

definition generateInitialColumns_A :: "(nat \<Rightarrow> draws) \<Rightarrow> scene \<Rightarrow> scene" where
  "generateInitialColumns_A ds s =
     foldl (\<lambda>s' i. let x = of_nat i * TILE_FULL_SIZE
                    in (snd (generateColumn_A x (ds i) s'))\<lparr>lastColumnX := x\<rparr>)
       s [0..<numColumns]"

text \<open>
  The calls of \<open>generateColumn\<close> that \<open>generateInitialColumns\<close> makes, as a list
  for \<open>generateColumns\<close>: the score does not change while the columns are laid out.
\<close>

definition initialCalls :: "(nat \<Rightarrow> draws) \<Rightarrow> rat \<Rightarrow> (rat \<times> rat \<times> draws) list" where
  "initialCalls ds sc = map (\<lambda>k. (of_nat k * TILE_FULL_SIZE, sc, ds k)) [0..<numColumns]"

subsection \<open>Creating and restarting a session\<close>

definition createPlayer :: player where
  "createPlayer =
     \<lparr>px = PLAYER_START_X, py = centerY, vx = 0, vy = 0,
      isGrounded = False, canDoubleJump = False, targetRotation = 0,
      isRotating = False, angle = 0, displayHeight = TILE_SIZE\<rparr>"

text \<open>
  The scene as \<open>create\<close> has set it up when it calls \<open>generateInitialColumns\<close>: the
  game state, the charge-jump state and the player are assigned, the generation counters
  are not (\<open>None\<close>: the properties do not exist yet). \<open>saved\<close> is the high score read
  from the cookie, \<open>None\<close> when there is no cookie or it holds no number. \<open>isSliding\<close>
  is never assigned in \<open>create\<close>; as a condition \<open>undefined\<close> counts as false.
  \<open>lastColumnX\<close> is written by \<open>generateInitialColumns\<close> before anything reads it.
  \<^verbatim>\<open>game.js\<close> assigns fewer fields and reads none of the others.
\<close>

definition create_start :: "int option \<Rightarrow> scene" where
  "create_start saved =
     \<lparr>isGameOver = False, score = 0,
      highScore = (case saved of None \<Rightarrow> 0 | Some v \<Rightarrow> v),
      worldX = 0, jumpCharge = JUMP_CHARGE_MAX, jumpsUsed = 0, colorWaveTime = 0,
      isChargingJump = False, chargeJumpTime = 0, jumpHoldStartTime = None,
      lastGroundedTime = 0, jumpBufferTime = 0, isSliding = False,
      greenObstacles = [], player = createPlayer,
      consecutiveEmptyColumns = None, lastColumnX = 0, totalColumnsGenerated = None,
      patternColumnsRemaining = None, patternHeight = None,
      previousColumnHeight = None\<rparr>"

text \<open>\<open>create\<close>: the counters are assigned after the initial columns exist.\<close>

definition create :: "int option \<Rightarrow> (nat \<Rightarrow> draws) \<Rightarrow> scene" where
  "create saved ds =
     (generateInitialColumns ds (create_start saved))
       \<lparr>consecutiveEmptyColumns := Some 0, lastColumnX := 0,
        totalColumnsGenerated := Some 0, patternColumnsRemaining := Some 0,
        patternHeight := Some 0, previousColumnHeight := Some 7\<rparr>"

definition create_A :: "int option \<Rightarrow> (nat \<Rightarrow> draws) \<Rightarrow> scene" where
  "create_A saved ds =
     (generateInitialColumns_A ds (create_start saved))
       \<lparr>consecutiveEmptyColumns := Some 0, lastColumnX := 0,
        totalColumnsGenerated := Some 0, patternColumnsRemaining := Some 0,
        patternHeight := Some 0\<rparr>"

text \<open>The assignments of \<open>restartGame\<close>, before it regenerates the initial columns.\<close>

definition restart_reset :: "scene \<Rightarrow> scene" where
  "restart_reset s =
     s\<lparr>greenObstacles := [],
       isGameOver := False, score := 0, worldX := 0,
       consecutiveEmptyColumns := Some 0, lastColumnX := 0,
       totalColumnsGenerated := Some 0, patternColumnsRemaining := Some 0,
       patternHeight := Some 0, previousColumnHeight := Some 7,
       jumpCharge := JUMP_CHARGE_MAX, jumpsUsed := 0, colorWaveTime := 0,
       isChargingJump := False, chargeJumpTime := 0, jumpBufferTime := 0,
       isSliding := False,
       player := (player s)\<lparr>px := PLAYER_START_X, py := centerY, vx := 0, vy := 0,
                             angle := 0, isRotating := False,
                             displayHeight := TILE_SIZE, targetRotation := 0,
                             canDoubleJump := False\<rparr>\<rparr>"

definition restartGame :: "(nat \<Rightarrow> draws) \<Rightarrow> scene \<Rightarrow> scene" where
  "restartGame ds s = generateInitialColumns ds (restart_reset s)"

definition restart_reset_A :: "scene \<Rightarrow> scene" where
  "restart_reset_A s =
     s\<lparr>greenObstacles := [],
       isGameOver := False, score := 0, worldX := 0,
       consecutiveEmptyColumns := Some 0, lastColumnX := 0,
       totalColumnsGenerated := Some 0, patternColumnsRemaining := Some 0,
       patternHeight := Some 0,
       jumpCharge := JUMP_CHARGE_MAX, jumpsUsed := 0, colorWaveTime := 0,
       player := (player s)\<lparr>px := PLAYER_START_X, py := centerY, vx := 0, vy := 0,
                             angle := 0, isRotating := False, targetRotation := 0,
                             canDoubleJump := False\<rparr>\<rparr>"

definition restartGame_A :: "(nat \<Rightarrow> draws) \<Rightarrow> scene \<Rightarrow> scene" where
  "restartGame_A ds s = generateInitialColumns_A ds (restart_reset_A s)"

subsection \<open>Game over\<close>

definition triggerGameOver :: "scene \<Rightarrow> scene" where
  "triggerGameOver s =
     (let finalScore = \<lfloor>score s\<rfloor>;
          s1 = s\<lparr>isGameOver := True\<rparr>;
          s2 = (if finalScore > highScore s1 then s1\<lparr>highScore := finalScore\<rparr> else s1)
      in s2\<lparr>player := (player s2)\<lparr>vx := 0, vy := 0\<rparr>\<rparr>)"

text \<open>
  \<open>handleCollision\<close>, the same text in both files. \<^verbatim>\<open>game.js\<close> registers it with
  \<open>physics.add.overlap\<close>, so the engine calls it for an obstacle the player overlaps;
  \<^verbatim>\<open>part_000\<close> registers nothing and never calls it.
\<close>

definition handleCollision :: "obstacle \<Rightarrow> scene \<Rightarrow> scene" where
  "handleCollision obstacle s =
     (if isGameOver s then s
      else
        let playerBottom = py (player s) + TILE_SIZE / 2;
            playerRight = px (player s) + TILE_SIZE / 2;
            obstacleTop = oy obstacle;
            obstacleLeft = ox obstacle
        in if playerBottom > obstacleTop + 3 \<and> playerRight > obstacleLeft
           then let s1 = s\<lparr>player := (player s)\<lparr>px := px (player s) - 2\<rparr>\<rparr>
                in if px (player s1) < GAME_OVER_BOUNDARY then triggerGameOver s1 else s1
           else s)"

subsection \<open>One frame's input\<close>

text \<open>
  What the host supplies to one call of \<open>update\<close>: \<open>now\<close> is \<open>this.time.now\<close> and
  \<open>delta\<close> the argument of \<open>update\<close>, both in milliseconds; \<open>loopDelta\<close> is
  \<open>this.game.loop.delta\<close>; \<open>justDown\<close>, \<open>justUp\<close> and \<open>isDown\<close> are what
  \<open>JustDown(spaceKey)\<close>, \<open>JustUp(spaceKey)\<close> and \<open>spaceKey.isDown\<close> answer in this
  frame (each is asked at most once); \<open>columnDraws\<close> serves the column \<open>scrollWorld\<close>
  may generate and \<open>initialDraws\<close> the initial columns of a restart.
\<close>

record tick =
  now :: rat
  delta :: rat
  loopDelta :: rat
  justDown :: bool
  justUp :: bool
  isDown :: bool
  columnDraws :: draws
  initialDraws :: "nat \<Rightarrow> draws"

subsection \<open>Jump input (part_000)\<close>

text \<open>
  \<open>handleJump\<close> of \<^verbatim>\<open>part_000\<close> first remembers a press, then runs down a chain of
  guarded blocks, each ending in \<open>return\<close>. \<open>bufferJump\<close> is the first step,
  \<open>jumpPath\<close> names the block that runs (the guards in the order of the source), and
  \<open>handleJump\<close> applies the block's assignments.
\<close>

datatype jumpPath =
    SlidingBlock    \<comment> \<open>\<open>if (this.isSliding)\<close>\<close>
  | ChargeSquash    \<comment> \<open>charge jump, squashing phase\<close>
  | ChargeLaunch    \<comment> \<open>charge jump, launch phase\<close>
  | DoubleJump      \<comment> \<open>double jump in the air\<close>
  | FreeJump        \<comment> \<open>ground jump attempt below full charge: jumps at once\<close>
  | HoldTracking    \<comment> \<open>ground jump attempt at full charge: starts tracking the hold\<close>
  | ChargeStart     \<comment> \<open>held past the threshold: starts charging\<close>
  | TapRelease      \<comment> \<open>released while the hold was tracked\<close>
  | NoJump          \<comment> \<open>no block runs\<close>

definition bufferJump :: "tick \<Rightarrow> scene \<Rightarrow> scene" where
  "bufferJump i s = (if justDown i then s\<lparr>jumpBufferTime := now i\<rparr> else s)"

definition jumpPath :: "tick \<Rightarrow> scene \<Rightarrow> jumpPath" where
  "jumpPath i s =
     (let s0 = bufferJump i s;
          hasBufferedJump = (now i - jumpBufferTime s0 < jumpBufferWindow);
          timeSinceGrounded = now i - lastGroundedTime s0;
          isActuallyInAir = (\<not> isGrounded (player s0) \<and> timeSinceGrounded > 100);
          isMovingUp = (vy (player s0) < 0);
          shouldAttemptGroundJump =
            ((justDown i \<or> hasBufferedJump)
             \<and> (isGrounded (player s0) \<or> timeSinceGrounded \<le> 100)
             \<and> \<not> isChargingJump s0);
          isOnGround = (isGrounded (player s0) \<or> timeSinceGrounded \<le> 100)
      in if isSliding s0 then SlidingBlock
         else if isChargingJump s0 \<and> isDown i \<and> isGrounded (player s0) then ChargeSquash
         else if isChargingJump s0 \<and> justUp i then ChargeLaunch
         else if justDown i \<and> isActuallyInAir \<and> isMovingUp
                 \<and> \<not> isChargingJump s0 \<and> jumpCharge s0 \<ge> JUMP_CHARGE_COST
         then DoubleJump
         else if shouldAttemptGroundJump
         then (if jumpCharge s0 < JUMP_CHARGE_MAX then FreeJump else HoldTracking)
         else if (case jumpHoldStartTime s0 of
                    None \<Rightarrow> False
                  | Some t \<Rightarrow> isOnGround \<and> isDown i \<and> now i - t \<ge> 150)
         then ChargeStart
         else if jumpHoldStartTime s0 \<noteq> None \<and> justUp i then TapRelease
         else NoJump)"

text \<open>The assignments of a regular jump: the free ground jump and the quick release.\<close>

definition regularJump :: "scene \<Rightarrow> scene" where
  "regularJump s =
     s\<lparr>player := (player s)\<lparr>vy := JUMP_VELOCITY, vx := 0,
                            isGrounded := False, isRotating := False\<rparr>\<rparr>"

definition chargeRatio :: "scene \<Rightarrow> rat" where
  "chargeRatio s = min (chargeJumpTime s / CHARGE_JUMP_MAX_TIME) 1"

definition handleJump :: "tick \<Rightarrow> scene \<Rightarrow> scene" where
  "handleJump i s =
     (let deltaSeconds = loopDelta i / 1000;
          s0 = bufferJump i s
      in case jumpPath i s of
           SlidingBlock \<Rightarrow>
             (if isChargingJump s0
              then s0\<lparr>isChargingJump := False, chargeJumpTime := 0,
                      player := (player s0)\<lparr>displayHeight := TILE_SIZE\<rparr>\<rparr>
              else s0)\<lparr>jumpHoldStartTime := None\<rparr>
         | ChargeSquash \<Rightarrow>
             let t = chargeJumpTime s0 + deltaSeconds;
                 t' = (if t > CHARGE_JUMP_MAX_TIME then CHARGE_JUMP_MAX_TIME else t);
                 squashProgress = min (t' / CHARGE_JUMP_MAX_TIME) 1;
                 targetHeight =
                   TILE_SIZE * (1 - squashProgress * (1 - CHARGE_JUMP_SQUASH_HEIGHT))
             in s0\<lparr>chargeJumpTime := t',
                    player := (player s0)\<lparr>angle := 0, isRotating := False,
                                           displayHeight := targetHeight\<rparr>\<rparr>
         | ChargeLaunch \<Rightarrow>
             let jumpVelocity = CHARGE_JUMP_MIN_VELOCITY
                   + (CHARGE_JUMP_MAX_VELOCITY - CHARGE_JUMP_MIN_VELOCITY) * chargeRatio s0;
                 horizontalVelocity = CHARGE_JUMP_HORIZONTAL_VELOCITY * chargeRatio s0;
                 s1 = s0\<lparr>player := (player s0)\<lparr>vy := jumpVelocity, vx := horizontalVelocity,
                                                  isGrounded := False, isRotating := False\<rparr>\<rparr>;
                 s2 = (if chargeJumpTime s1 > 0 then s1\<lparr>jumpCharge := 0\<rparr> else s1)
             in s2\<lparr>isChargingJump := False, chargeJumpTime := 0,
                    jumpHoldStartTime := None,
                    player := (player s2)\<lparr>displayHeight := TILE_SIZE\<rparr>\<rparr>
         | DoubleJump \<Rightarrow>
             s0\<lparr>player := (player s0)\<lparr>vy := JUMP_VELOCITY, vx := 0\<rparr>,
                jumpCharge := jumpCharge s0 - JUMP_CHARGE_COST\<rparr>
         | FreeJump \<Rightarrow> regularJump (s0\<lparr>jumpBufferTime := 0\<rparr>)
         | HoldTracking \<Rightarrow> s0\<lparr>jumpBufferTime := 0, jumpHoldStartTime := Some (now i)\<rparr>
         | ChargeStart \<Rightarrow>
             s0\<lparr>isChargingJump := True, chargeJumpTime := 0, jumpHoldStartTime := None\<rparr>
         | TapRelease \<Rightarrow>
             (if isGrounded (player s0) \<or> now i - lastGroundedTime s0 \<le> 100
              then regularJump s0 else s0)\<lparr>jumpHoldStartTime := None\<rparr>
         | NoJump \<Rightarrow> s0)"

subsection \<open>Jump input (game.js)\<close>

datatype jumpPath_A =
    GroundJump_A    \<comment> \<open>first jump from the ground\<close>
  | DoubleJump_A    \<comment> \<open>double jump in the air\<close>
  | NoJump_A

definition jumpPath_A :: "tick \<Rightarrow> scene \<Rightarrow> jumpPath_A" where
  "jumpPath_A i s =
     (if justDown i
      then if isGrounded (player s) then GroundJump_A
           else if \<not> isGrounded (player s) \<and> canDoubleJump (player s)
                   \<and> jumpCharge s \<ge> JUMP_CHARGE_COST
           then DoubleJump_A
           else NoJump_A
      else NoJump_A)"

definition handleJump_A :: "tick \<Rightarrow> scene \<Rightarrow> scene" where
  "handleJump_A i s =
     (case jumpPath_A i s of
        GroundJump_A \<Rightarrow>
          s\<lparr>player := (player s)\<lparr>vy := JUMP_VELOCITY, isGrounded := False,
                                 isRotating := False, canDoubleJump := True\<rparr>,
            jumpsUsed := 0\<rparr>
      | DoubleJump_A \<Rightarrow>
          s\<lparr>player := (player s)\<lparr>vy := JUMP_VELOCITY, canDoubleJump := False\<rparr>,
            jumpCharge := jumpCharge s - JUMP_CHARGE_COST,
            jumpsUsed := 1\<rparr>
      | NoJump_A \<Rightarrow> s)"

subsection \<open>Recharge and rotation (the same text in both files)\<close>

definition handleJumpCharge :: "rat \<Rightarrow> scene \<Rightarrow> scene" where
  "handleJumpCharge dt s =
     (let s1 = s\<lparr>jumpCharge := min JUMP_CHARGE_MAX (jumpCharge s + JUMP_CHARGE_RATE * dt)\<rparr>
      in if isGrounded (player s1) then s1\<lparr>jumpsUsed := 0\<rparr> else s1)"

text \<open>
  JavaScript's \<open>a % m\<close> takes the sign of \<open>a\<close> (the quotient is truncated towards
  zero); \<open>Math.round\<close> rounds a half up.
\<close>

definition js_rem :: "rat \<Rightarrow> rat \<Rightarrow> rat" where
  "js_rem a m = a - m * of_int (if a / m < 0 then \<lceil>a / m\<rceil> else \<lfloor>a / m\<rfloor>)"

definition js_round :: "rat \<Rightarrow> int" where
  "js_round a = \<lfloor>a + 1 / 2\<rfloor>"

text \<open>
  \<open>player.angle\<close> is a property of the Phaser sprite, not a plain field: its setter
  stores \<open>Phaser.Math.Angle.WrapDegrees(value)\<close>, which is
  \<open>Wrap(value, -180, 180) = min + ((((value - min) % range) + range) % range)\<close> with
  \<open>min = -180\<close> and \<open>range = 360\<close>, so the angle read back lies in \<open>[-180, 180)\<close>.
  The assignments \<open>player.angle = 0\<close> elsewhere store 0.
\<close>

definition WrapDegrees :: "rat \<Rightarrow> rat" where
  "WrapDegrees a = - 180 + js_rem (js_rem (a - (- 180)) 360 + 360) 360"

definition handleRotation :: "rat \<Rightarrow> scene \<Rightarrow> scene" where
  "handleRotation dt s =
     (if \<not> isGrounded (player s)
      then s\<lparr>player := (player s)\<lparr>angle := WrapDegrees (angle (player s) + 360 * dt)\<rparr>\<rparr>
      else if isRotating (player s)
      then
        let rotationSpeed = 720;
            a = js_rem (angle (player s)) 360;
            currentAngle = (if a < 0 then a + 360 else a);
            target = of_int (js_round (currentAngle / 90)) * 90;
            diff0 = target - currentAngle;
            diff1 = (if diff0 > 180 then diff0 - 360 else diff0);
            angleDiff = (if diff1 < - 180 then diff1 + 360 else diff1)
        in if \<bar>angleDiff\<bar> < 5
           then s\<lparr>player := (player s)\<lparr>angle := WrapDegrees target, isRotating := False\<rparr>\<rparr>
           else s\<lparr>player := (player s)\<lparr>angle := WrapDegrees (angle (player s)
                                           + sgn angleDiff * rotationSpeed * dt)\<rparr>\<rparr>
      else s)"

subsection \<open>Scrolling, grounding and the frame update (part_000)\<close>

text \<open>
  \<open>scrollWorld\<close> walks \<open>obstaclesGroup.getChildren()\<close> with \<open>forEach\<close>. The group holds
  the live tiles of \<open>greenObstacles\<close> in the same order (\<open>createTile\<close> adds a tile to
  both, \<open>restartGame\<close> clears both), so the model keeps the one list. A tile that passes
  \<open>- 2 * TILE_FULL_SIZE\<close> is destroyed: it leaves \<open>greenObstacles\<close>, and the group, which
  listens to the tile's destruction, splices it out of the very array \<open>forEach\<close> is walking.
  The tile behind it moves into its index and \<open>forEach\<close> goes on with the next index, so
  the tile that follows a destroyed one is neither moved nor tested in this frame.
\<close>

fun scrollObstacles :: "rat \<Rightarrow> obstacle list \<Rightarrow> obstacle list" where
  "scrollObstacles scrollAmount [] = []"
| "scrollObstacles scrollAmount [obstacle] =
     (let moved = obstacle\<lparr>ox := ox obstacle - scrollAmount\<rparr>
      in if ox moved < - TILE_FULL_SIZE * 2 then [] else [moved])"
| "scrollObstacles scrollAmount (obstacle # skipped # rest) =
     (let moved = obstacle\<lparr>ox := ox obstacle - scrollAmount\<rparr>
      in if ox moved < - TILE_FULL_SIZE * 2
         then skipped # scrollObstacles scrollAmount rest
         else moved # scrollObstacles scrollAmount (skipped # rest))"

text \<open>
  Then \<open>worldX\<close> advances and a column is generated when the last one comes within one
  tile of the right edge. The filter that drops the tiles of \<open>greenObstacles\<close> that are
  not live comes first in the model: such a tile is in no group and is not moved.
\<close>

definition scrollWorld :: "rat \<Rightarrow> draws \<Rightarrow> scene \<Rightarrow> scene" where
  "scrollWorld dt d s =
     (let scrollAmount = SCROLL_SPEED * dt;
          s1 = s\<lparr>greenObstacles :=
                    scrollObstacles scrollAmount (filter active (greenObstacles s)),
                 worldX := worldX s + scrollAmount\<rparr>;
          rightEdge = screenWidth;
          actualLastColumnX = lastColumnX s1 - worldX s1
      in if actualLastColumnX < rightEdge + TILE_FULL_SIZE
         then let newColumnX = lastColumnX s1 + TILE_FULL_SIZE
              in (snd (generateColumn (newColumnX - worldX s1) d s1))
                   \<lparr>lastColumnX := newColumnX\<rparr>
         else s1)"

text \<open>
  One pass of the loop of \<open>checkGrounded\<close> over \<open>greenObstacles\<close>. \<open>bounds\<close> are the
  player's bottom, left, right and top, computed once before the loop; the loop carries
  the player (whose position and velocity it may change), \<open>standingOnObstacle\<close> and
  \<open>highestObstacleY\<close>.
\<close>

definition checkObstacle ::
  "rat \<times> rat \<times> rat \<times> rat \<Rightarrow> obstacle \<Rightarrow> player \<times> bool \<times> rat \<Rightarrow> player \<times> bool \<times> rat" where
  "checkObstacle bounds obstacle acc =
     (let (playerBottom, playerLeft, playerRight, playerTop) = bounds;
          (p, standingOnObstacle, highestObstacleY) = acc
      in if \<not> active obstacle then acc
         else
           let obstacleTop = oy obstacle;
               obstacleBottom = oy obstacle + TILE_SIZE;
               obstacleLeft = ox obstacle;
               obstacleRight = ox obstacle + TILE_SIZE;
               overlapsX = (playerRight > obstacleLeft + 1 \<and> playerLeft < obstacleRight - 1);
               overlapsY = (playerBottom > obstacleTop + 1 \<and> playerTop < obstacleBottom - 1)
           in if overlapsX \<and> overlapsY
              then
                let overlapLeft = playerRight - obstacleLeft;
                    overlapRight = obstacleRight - playerLeft;
                    overlapTop = playerBottom - obstacleTop;
                    overlapBottom = obstacleBottom - playerTop;
                    minOverlap = min (min overlapLeft overlapRight) (min overlapTop overlapBottom)
                in if minOverlap = overlapTop \<and> vy p \<ge> 0
                   then (if obstacleTop < highestObstacleY then (p, True, obstacleTop) else acc)
                   else if minOverlap = overlapBottom \<and> vy p \<le> 0
                   then (p\<lparr>py := obstacleBottom + TILE_SIZE / 2, vy := 0\<rparr>,
                         standingOnObstacle, highestObstacleY)
                   else if minOverlap = overlapLeft
                   then (p\<lparr>px := obstacleLeft - TILE_SIZE / 2, vx := 0\<rparr>,
                         standingOnObstacle, highestObstacleY)
                   else if minOverlap = overlapRight
                   then (p\<lparr>px := obstacleRight + TILE_SIZE / 2, vx := 0\<rparr>,
                         standingOnObstacle, highestObstacleY)
                   else acc
              else if overlapsX \<and> \<not> overlapsY
              then
                let gap = obstacleTop - playerBottom
                in if gap \<ge> - 1 \<and> gap \<le> 3 \<and> vy p \<ge> 0
                   then (if obstacleTop < highestObstacleY then (p, True, obstacleTop) else acc)
                   else acc
              else acc)"

definition checkGrounded :: "tick \<Rightarrow> scene \<Rightarrow> scene" where
  "checkGrounded i s =
     (let wasGrounded = isGrounded (player s);
          playerBottom = py (player s) + TILE_SIZE / 2;
          playerLeft = px (player s) - TILE_SIZE / 2;
          playerRight = px (player s) + TILE_SIZE / 2;
          playerTop = py (player s) - TILE_SIZE / 2;
          (p, standingOnObstacle, highestObstacleY) =
            foldl (\<lambda>acc obstacle.
                     checkObstacle (playerBottom, playerLeft, playerRight, playerTop)
                       obstacle acc)
              (player s, False, screenHeight) (greenObstacles s);
          s1 = (if standingOnObstacle
                then let p1 = p\<lparr>py := highestObstacleY - TILE_SIZE / 2, vy := 0\<rparr>
                     in if \<not> wasGrounded
                        then s\<lparr>player := p1\<lparr>isGrounded := True, isRotating := True\<rparr>,
                               lastGroundedTime := now i\<rparr>
                        else s\<lparr>player := p1\<lparr>isGrounded := True\<rparr>,
                               lastGroundedTime := now i\<rparr>
                else s\<lparr>player := p\<lparr>isGrounded := False\<rparr>\<rparr>)
      in if py (player s1) > screenHeight + 50 then triggerGameOver s1 else s1)"

text \<open>
  \<open>update\<close>: in the game-over state only the restart key is read; otherwise the frame
  runs \<open>checkGrounded\<close>, \<open>handleJump\<close>, \<open>handleRotation\<close>, \<open>handleJumpCharge\<close> and
  \<open>scrollWorld\<close>, adds to the score and checks whether the player fell off the bottom.
  The physics step that moves the player between two frames belongs to the engine and is
  not part of \<open>update\<close>.
\<close>

definition update :: "tick \<Rightarrow> scene \<Rightarrow> scene" where
  "update i s =
     (if isGameOver s
      then (if justDown i then restartGame (initialDraws i) s else s)
      else
        let deltaSeconds = delta i / 1000;
            s1 = s\<lparr>colorWaveTime := colorWaveTime s + deltaSeconds\<rparr>;
            s2 = checkGrounded i s1;
            s3 = handleJump i s2;
            s4 = handleRotation deltaSeconds s3;
            s5 = handleJumpCharge deltaSeconds s4;
            s6 = scrollWorld deltaSeconds (columnDraws i) s5;
            s7 = s6\<lparr>score := score s6 + deltaSeconds * 10\<rparr>
        in if py (player s7) > screenHeight + 50 then triggerGameOver s7 else s7)"

subsection \<open>Grounding (game.js)\<close>

text \<open>
  \<open>checkGrounded\<close> of \<^verbatim>\<open>game.js\<close>: the loop over \<open>greenObstacles\<close> only looks for the
  highest tile the player stands on (it carries \<open>standingOnObstacle\<close> and
  \<open>highestObstacleY\<close>); the player lands only when it is not moving up, and a landing
  from the air clears \<open>canDoubleJump\<close>. There is no \<open>lastGroundedTime\<close> in this file.
\<close>

definition checkObstacle_A ::
  "rat \<times> rat \<times> rat \<Rightarrow> obstacle \<Rightarrow> bool \<times> rat \<Rightarrow> bool \<times> rat" where
  "checkObstacle_A bounds obstacle acc =
     (let (playerBottom, playerLeft, playerRight) = bounds;
          (standingOnObstacle, highestObstacleY) = acc
      in if \<not> active obstacle then acc
         else
           let obstacleTop = oy obstacle;
               obstacleLeft = ox obstacle;
               obstacleRight = ox obstacle + TILE_SIZE;
               isOnTop = (playerBottom \<ge> obstacleTop \<and> playerBottom \<le> obstacleTop + 10);
               isOverlapping = (playerRight > obstacleLeft + 2 \<and> playerLeft < obstacleRight - 2)
           in if isOnTop \<and> isOverlapping \<and> obstacleTop < highestObstacleY
              then (True, obstacleTop)
              else acc)"

definition checkGrounded_A :: "scene \<Rightarrow> scene" where
  "checkGrounded_A s =
     (let wasGrounded = isGrounded (player s);
          playerBottom = py (player s) + TILE_SIZE / 2;
          playerLeft = px (player s) - TILE_SIZE / 2;
          playerRight = px (player s) + TILE_SIZE / 2;
          (standingOnObstacle, highestObstacleY) =
            foldl (\<lambda>acc obstacle.
                     checkObstacle_A (playerBottom, playerLeft, playerRight) obstacle acc)
              (False, screenHeight) (greenObstacles s);
          s1 = (if standingOnObstacle \<and> vy (player s) \<ge> 0
                then let p1 = (player s)\<lparr>py := highestObstacleY - TILE_SIZE / 2, vy := 0\<rparr>
                     in if \<not> wasGrounded
                        then s\<lparr>player := p1\<lparr>isGrounded := True, canDoubleJump := False,
                                              isRotating := True\<rparr>\<rparr>
                        else s\<lparr>player := p1\<lparr>isGrounded := True\<rparr>\<rparr>
                else s\<lparr>player := (player s)\<lparr>isGrounded := False\<rparr>\<rparr>)
      in if py (player s1) > screenHeight + 50 then triggerGameOver s1 else s1)"

subsection \<open>Properties stated about the generator, and concrete inputs\<close>

text \<open>A height the grid can show: a number from 0 to 7.\<close>

definition heightOK :: "jsnum \<Rightarrow> bool" where
  "heightOK h = (case h of None \<Rightarrow> False | Some v \<Rightarrow> 0 \<le> v \<and> v \<le> 7)"

text \<open>
  What every scene satisfies when \<open>generateColumn\<close> is called: a pending pattern repeats
  a proper height, and the previous height is a proper height once it exists (before it
  exists the empty-column counter does not exist either).
\<close>

definition genInv_A :: "scene \<Rightarrow> bool" where
  "genInv_A s = (js_gt (patternColumnsRemaining s) (Some 0) \<longrightarrow> heightOK (patternHeight s))"

definition genInv :: "scene \<Rightarrow> bool" where
  "genInv s = (genInv_A s
     \<and> (case previousColumnHeight s of
          None \<Rightarrow> consecutiveEmptyColumns s = None
        | Some p \<Rightarrow> 0 \<le> p \<and> p \<le> 7))"

text \<open>Draws that are all the same value \<open>u\<close>, but \<open>c\<close> for \<open>patternChance\<close>.\<close>

definition constDraws :: "rat \<Rightarrow> rat \<Rightarrow> draws" where
  "constDraws u c = \<lparr>heightDraws = (\<lambda>k. u), forcedDraw = u, patternDraw = c\<rparr>"

subsection \<open>Concrete frames and scenes\<close>

text \<open>
  A frame at time \<open>t\<close> (milliseconds) lasting \<open>dt\<close> milliseconds, with the answers of the
  space key; the random draws are arbitrary values in range.
\<close>

definition keyTick :: "rat \<Rightarrow> rat \<Rightarrow> bool \<Rightarrow> bool \<Rightarrow> bool \<Rightarrow> tick" where
  "keyTick t dt pressed released held =
     \<lparr>now = t, delta = dt, loopDelta = dt,
      justDown = pressed, justUp = released, isDown = held,
      columnDraws = constDraws (1 / 2) (1 / 2),
      initialDraws = (\<lambda>k. constDraws (1 / 2) (1 / 2))\<rparr>"

definition someDraws :: "nat \<Rightarrow> draws" where
  "someDraws k = constDraws (1 / 2) (1 / 2)"

text \<open>A running scene with every field at its initial value and no tiles.\<close>

definition runningScene :: scene where
  "runningScene = restart_reset (create_start None)"

text \<open>The player standing on the ground, last seen grounded at time 1000, with charge \<open>c\<close>.\<close>

definition groundedScene :: "rat \<Rightarrow> scene" where
  "groundedScene c =
     runningScene\<lparr>jumpCharge := c, lastGroundedTime := 1000,
                  player := (player runningScene)\<lparr>py := 531 / 2, isGrounded := True\<rparr>\<rparr>"

text \<open>The player in the air and rising, having left the ground at time 1000.\<close>

definition risingScene :: "rat \<Rightarrow> scene" where
  "risingScene c =
     runningScene\<lparr>jumpCharge := c, lastGroundedTime := 1000,
                  player := (player runningScene)\<lparr>py := 200, vy := - 100, isGrounded := False\<rparr>\<rparr>"

text \<open>The player of \<^verbatim>\<open>game.js\<close> falling after a ground jump, with charge 60.\<close>

definition fallingScene :: scene where
  "fallingScene =
     runningScene\<lparr>jumpCharge := 60,
                  player := (player runningScene)\<lparr>py := 200, vy := 200, isGrounded := False,
                                                  canDoubleJump := True\<rparr>\<rparr>"

text \<open>Full charge, the hold tracked since time 1000; and charging for \<open>t\<close> seconds.\<close>

definition trackingScene :: scene where
  "trackingScene = (groundedScene 100)\<lparr>jumpHoldStartTime := Some 1000\<rparr>"

definition chargingScene :: "rat \<Rightarrow> scene" where
  "chargingScene t = (groundedScene 100)\<lparr>isChargingJump := True, chargeJumpTime := t\<rparr>"

text \<open>
  The key pressed at time 1000, held, and released at time 1200, at a frame every 20 ms;
  \<open>handleJumps\<close> runs \<open>handleJump\<close> once per frame on a scene nothing else changes.
\<close>

definition holdFrames :: "tick list" where
  "holdFrames =
     [keyTick 1000 20 True False True,
      keyTick 1020 20 False False True, keyTick 1040 20 False False True,
      keyTick 1060 20 False False True, keyTick 1080 20 False False True,
      keyTick 1100 20 False False True, keyTick 1120 20 False False True,
      keyTick 1140 20 False False True, keyTick 1160 20 False False True,
      keyTick 1180 20 False False True,
      keyTick 1200 20 False True False]"

definition handleJumps :: "tick list \<Rightarrow> scene \<Rightarrow> scene" where
  "handleJumps frames s = foldl (\<lambda>s' i. handleJump i s') s frames"

text \<open>
  The player coming down from a charge jump (charged for 0.2 s, so launched with a
  horizontal velocity of 20 px/s, the charge spent and partly recovered): falling at
  100 px/s, half a pixel above a column of height 2.
\<close>

definition landingScene :: scene where
  "landingScene =
     runningScene\<lparr>jumpCharge := 27 / 2,
                  player := (player runningScene)\<lparr>px := 150, py := 265, vx := 20, vy := 100\<rparr>,
                  greenObstacles := [\<lparr>ox = 145, oy = 272, active = True\<rparr>,
                                     \<lparr>ox = 145, oy = 287, active = True\<rparr>],
                  lastColumnX := 870\<rparr>"

text \<open>
  The player of \<open>landingScene\<close> once it has landed: on the column, with the horizontal
  velocity it had, the charge 0.4 higher.
\<close>

definition landedScene :: scene where
  "landedScene =
     landingScene\<lparr>jumpCharge := 139 / 10, lastGroundedTime := 5000,
                  player := (player landingScene)\<lparr>py := 531 / 2, vy := 0, isGrounded := True\<rparr>\<rparr>"

text \<open>
  The player rising after the same charge jump, 1.5 px into the left side of a column of
  height 3.
\<close>

definition sideScene :: scene where
  "sideScene =
     runningScene\<lparr>jumpCharge := 17 / 2, lastGroundedTime := 4660,
                  player := (player runningScene)\<lparr>px := 150, py := 265, vx := 20, vy := - 100\<rparr>,
                  greenObstacles := [\<lparr>ox = 155, oy = 287, active = True\<rparr>,
                                     \<lparr>ox = 155, oy = 272, active = True\<rparr>,
                                     \<lparr>ox = 155, oy = 257, active = True\<rparr>],
                  lastColumnX := 870\<rparr>"

text \<open>
  The player of \<^verbatim>\<open>game.js\<close> falling after a ground jump, half a pixel into the top of
  a column of height 2.
\<close>

definition landingScene_A :: scene where
  "landingScene_A =
     fallingScene\<lparr>player := (player fallingScene)\<lparr>py := 266\<rparr>,
                  greenObstacles := [\<lparr>ox = 145, oy = 287, active = True\<rparr>,
                                     \<lparr>ox = 145, oy = 272, active = True\<rparr>]\<rparr>"

text \<open>
  The player standing on a column of height 1 at \<open>x = - 22\<close>, two pixels into the side of
  the column of height 2 at \<open>x = - 7\<close> that has been pushing it to the left.
\<close>

definition pushedScene :: scene where
  "pushedScene =
     runningScene\<lparr>player := (player runningScene)\<lparr>px := - 23 / 2, py := 561 / 2,
                                                  isGrounded := True\<rparr>,
                  greenObstacles := [\<lparr>ox = - 22, oy = 287, active = True\<rparr>,
                                     \<lparr>ox = - 7, oy = 287, active = True\<rparr>,
                                     \<lparr>ox = - 7, oy = 272, active = True\<rparr>],
                  lastColumnX := 870, lastGroundedTime := 4984\<rparr>"

text \<open>
  A game-over scene: the player fell off the bottom while the hold of the jump key,
  begun at time 4000, was still tracked.
\<close>

definition heldScene :: scene where
  "heldScene =
     runningScene\<lparr>isGameOver := True, score := 321 / 10, highScore := 32,
                  jumpHoldStartTime := Some 4000, lastGroundedTime := 3950,
                  player := (player runningScene)\<lparr>px := 150, py := 351\<rparr>\<rparr>"

text \<open>
  Calls of \<open>generateColumn\<close> at score 0: thirty ramp-up columns, then draws that
  \<open>Phaser.Math.Between(0, 7)\<close> turns into the heights 0 (\<^verbatim>\<open>game.js\<close>) and 5, 3, 1, 0, 0
  (\<^verbatim>\<open>part_000\<close>, each followed by the call that repeats it).
\<close>

definition emptyRunCalls_A :: "(rat \<times> rat \<times> draws) list" where
  "emptyRunCalls_A =
     replicate 30 (0, 0, constDraws (1 / 2) (1 / 2))
     @ [(0, 0, constDraws (1 / 10) (1 / 10)), (0, 0, constDraws (1 / 10) (1 / 10)),
        (0, 0, constDraws (1 / 10) (1 / 10))]"

definition emptyRunCalls :: "(rat \<times> rat \<times> draws) list" where
  "emptyRunCalls =
     replicate 30 (0, 0, constDraws (1 / 2) (1 / 2))
     @ [(0, 0, constDraws (11 / 16) (1 / 2)), (0, 0, constDraws (11 / 16) (1 / 2))]
     @ [(0, 0, constDraws (7 / 16) (1 / 2)), (0, 0, constDraws (7 / 16) (1 / 2))]
     @ [(0, 0, constDraws (3 / 16) (1 / 2)), (0, 0, constDraws (3 / 16) (1 / 2))]
     @ [(0, 0, constDraws (1 / 16) (1 / 2)), (0, 0, constDraws (1 / 16) (1 / 2))]
     @ [(0, 0, constDraws (1 / 16) (1 / 2)), (0, 0, constDraws (1 / 16) (1 / 2))]"

section \<open>The column generator\<close>

subsection \<open>Random integers stay in their range\<close>

lemma Between_range:
  assumes "unitDraw u" "lo \<le> hi"
  shows "lo \<le> Between lo hi u \<and> Between lo hi u \<le> hi"
proof -
  have u: "0 \<le> u" "u < 1" using assms(1) by (simp_all add: unitDraw_def)
  have n: "(0::rat) < of_int (hi - lo + 1)" using assms(2) by simp
  have "0 \<le> u * of_int (hi - lo + 1)" using u n by simp
  hence lo: "of_int lo \<le> u * of_int (hi - lo + 1) + of_int lo" by simp
  have "u * of_int (hi - lo + 1) < 1 * of_int (hi - lo + 1)"
    using u n by (intro mult_strict_right_mono) auto
  hence hi: "u * of_int (hi - lo + 1) + of_int lo < of_int hi + 1" by simp
  have "lo \<le> \<lfloor>u * of_int (hi - lo + 1) + of_int lo\<rfloor>"
    using lo by (rule iffD2[OF le_floor_iff])
  moreover have "\<lfloor>u * of_int (hi - lo + 1) + of_int lo\<rfloor> \<le> hi"
    using hi by (rule iffD2[OF floor_le_iff])
  ultimately show ?thesis unfolding Between_def by blast
qed

lemma heightOK_Between07: "unitDraw u \<Longrightarrow> heightOK (Some (Between 0 7 u))"
  using Between_range[of u 0 7] by (simp add: heightOK_def)

lemma heightOK_Between1: "unitDraw u \<Longrightarrow> 1 \<le> hi \<Longrightarrow> hi \<le> 7 \<Longrightarrow> heightOK (Some (Between 1 hi u))"
  using Between_range[of u 1 hi] by (simp add: heightOK_def)

lemma drawsOK_height: "drawsOK d \<Longrightarrow> k \<le> 10 \<Longrightarrow> unitDraw (heightDraws d k)"
  by (simp add: drawsOK_def list_all_iff)

lemma drawHeight_undefined:
  "drawHeight rnd None m 0 = Some (Between 0 7 (rnd 0))"
  by (subst drawHeight.simps) (simp add: js_gt_def js_sub_def js_abs_def)

lemma drawHeight_ok:
  "(\<And>k. k \<le> 10 \<Longrightarrow> unitDraw (rnd k)) \<Longrightarrow> a \<le> 10 \<Longrightarrow> heightOK (drawHeight rnd (Some p) m a)"
proof (induction rnd "Some p" m a rule: drawHeight.induct)
  case (1 rnd m a)
  show ?case
  proof (cases "Suc a > 10")
    case True
    then show ?thesis
      by (subst drawHeight.simps) (simp add: js_max_def js_min_def js_sub_def js_add_def heightOK_def)
  next
    case False
    show ?thesis
    proof (cases "js_gt (js_abs (js_sub (Some (Between 0 7 (rnd a))) (Some p))) (Some m)")
      case True
      have "heightOK (drawHeight rnd (Some p) m (Suc a))"
        using "1.hyps"[OF refl refl _ True] False "1.prems" by simp
      then show ?thesis using False True by (subst drawHeight.simps) (simp add: Let_def)
    next
      case F2: False
      have "heightOK (Some (Between 0 7 (rnd a)))"
        using "1.prems" by (intro heightOK_Between07) simp
      then show ?thesis using False F2 by (subst drawHeight.simps) (simp add: Let_def)
    qed
  qed
qed

subsection \<open>The branches of \<open>generateColumn\<close>\<close>

lemma foldl_createTile:
  "foldl (\<lambda>s' row. createTile x (f row) (g row) s') s rows
   = s\<lparr>greenObstacles := greenObstacles s
          @ map (\<lambda>row. \<lparr>ox = x, oy = f row, active = True\<rparr>) (filter g rows)\<rparr>"
  by (induction rows arbitrary: s) (simp_all add: createTile_def)

lemma createColumnTiles_eq:
  "createColumnTiles x h s
   = s\<lparr>greenObstacles := greenObstacles s
          @ map (\<lambda>row. \<lparr>ox = x, oy = screenHeight - TILE_SIZE - of_nat row * TILE_FULL_SIZE,
                         active = True\<rparr>)
              (filter (\<lambda>row. js_lt (Some (int row)) h) [0..<ROWS])\<rparr>"
  unfolding createColumnTiles_def Let_def by (rule foldl_createTile)

lemma generateColumn_ramp:
  assumes "js_lt (totalColumnsGenerated s) (Some 30)"
  shows "fst (generateColumn x d s) = Some 7"
    and "patternColumnsRemaining (snd (generateColumn x d s)) = patternColumnsRemaining s"
    and "patternHeight (snd (generateColumn x d s)) = patternHeight s"
    and "consecutiveEmptyColumns (snd (generateColumn x d s)) = consecutiveEmptyColumns s"
    and "previousColumnHeight (snd (generateColumn x d s)) = Some 7"
    and "totalColumnsGenerated (snd (generateColumn x d s)) = js_add (totalColumnsGenerated s) (Some 1)"
  using assms by (simp_all add: generateColumn_def Let_def createColumnTiles_eq)

lemma generateColumn_pattern:
  assumes "\<not> js_lt (totalColumnsGenerated s) (Some 30)" "js_gt (patternColumnsRemaining s) (Some 0)"
  shows "fst (generateColumn x d s) = patternHeight s"
    and "patternColumnsRemaining (snd (generateColumn x d s)) = js_sub (patternColumnsRemaining s) (Some 1)"
    and "patternHeight (snd (generateColumn x d s)) = patternHeight s"
    and "consecutiveEmptyColumns (snd (generateColumn x d s)) = consecutiveEmptyColumns s"
    and "previousColumnHeight (snd (generateColumn x d s)) = patternHeight s"
    and "totalColumnsGenerated (snd (generateColumn x d s)) = js_add (totalColumnsGenerated s) (Some 1)"
  using assms by (simp_all add: generateColumn_def Let_def createColumnTiles_eq)

lemma generateColumn_draw:
  fixes s :: scene and d :: draws and x :: rat
  assumes "\<not> js_lt (totalColumnsGenerated s) (Some 30)" "\<not> js_gt (patternColumnsRemaining s) (Some 0)"
  defines "m \<equiv> 2 + \<lfloor>score s / 200\<rfloor>"
  defines "h0 \<equiv> drawHeight (heightDraws d) (previousColumnHeight s) m 0"
  defines "forced \<equiv> (h0 = Some 0 \<and> js_gt (js_add (consecutiveEmptyColumns s) (Some 1)) (Some 2))"
  defines "h1 \<equiv> (if forced then BetweenJ 1 (js_min (Some 7) (js_add (previousColumnHeight s) (Some m))) (forcedDraw d) else h0)"
  shows "fst (generateColumn x d s) = h1"
    and "js_gt (patternColumnsRemaining (snd (generateColumn x d s))) (Some 0)"
    and "patternHeight (snd (generateColumn x d s)) = h1"
    and "consecutiveEmptyColumns (snd (generateColumn x d s))
         = (if h0 = Some 0 \<and> \<not> forced then js_add (consecutiveEmptyColumns s) (Some 1) else Some 0)"
    and "previousColumnHeight (snd (generateColumn x d s)) = h1"
    and "totalColumnsGenerated (snd (generateColumn x d s)) = js_add (totalColumnsGenerated s) (Some 1)"
  using assms(1,2) unfolding m_def h0_def forced_def h1_def
  by (simp_all add: generateColumn_def Let_def createColumnTiles_eq js_gt_def split: prod.splits)

lemma generateColumn_A_ramp:
  assumes "js_lt (totalColumnsGenerated s) (Some 30)"
  shows "fst (generateColumn_A x d s) = Some 7"
    and "patternColumnsRemaining (snd (generateColumn_A x d s)) = patternColumnsRemaining s"
    and "patternHeight (snd (generateColumn_A x d s)) = patternHeight s"
    and "consecutiveEmptyColumns (snd (generateColumn_A x d s)) = consecutiveEmptyColumns s"
    and "totalColumnsGenerated (snd (generateColumn_A x d s)) = js_add (totalColumnsGenerated s) (Some 1)"
  using assms by (simp_all add: generateColumn_A_def Let_def createColumnTiles_eq)

lemma generateColumn_A_pattern:
  assumes "\<not> js_lt (totalColumnsGenerated s) (Some 30)" "js_gt (patternColumnsRemaining s) (Some 0)"
  shows "fst (generateColumn_A x d s) = patternHeight s"
    and "patternColumnsRemaining (snd (generateColumn_A x d s)) = js_sub (patternColumnsRemaining s) (Some 1)"
    and "patternHeight (snd (generateColumn_A x d s)) = patternHeight s"
    and "consecutiveEmptyColumns (snd (generateColumn_A x d s)) = consecutiveEmptyColumns s"
    and "totalColumnsGenerated (snd (generateColumn_A x d s)) = js_add (totalColumnsGenerated s) (Some 1)"
  using assms by (simp_all add: generateColumn_A_def Let_def createColumnTiles_eq)

lemma generateColumn_A_draw:
  fixes s :: scene and d :: draws and x :: rat
  assumes "\<not> js_lt (totalColumnsGenerated s) (Some 30)" "\<not> js_gt (patternColumnsRemaining s) (Some 0)"
  defines "h0 \<equiv> Some (Between 0 7 (heightDraws d 0))"
  defines "forced \<equiv> (h0 = Some 0 \<and> js_gt (js_add (consecutiveEmptyColumns s) (Some 1)) (Some 2))"
  defines "h1 \<equiv> (if forced then Some (Between 1 7 (forcedDraw d)) else h0)"
  defines "c \<equiv> Between 1 15 (patternDraw d)"
  shows "fst (generateColumn_A x d s) = h1"
    and "patternColumnsRemaining (snd (generateColumn_A x d s))
         = (if c \<le> 5 then Some 1 else if c = 15 then Some 2 else patternColumnsRemaining s)"
    and "patternHeight (snd (generateColumn_A x d s))
         = (if c \<le> 5 \<or> c = 15 then h1 else patternHeight s)"
    and "consecutiveEmptyColumns (snd (generateColumn_A x d s))
         = (if h0 = Some 0 \<and> \<not> forced then js_add (consecutiveEmptyColumns s) (Some 1) else Some 0)"
    and "totalColumnsGenerated (snd (generateColumn_A x d s)) = js_add (totalColumnsGenerated s) (Some 1)"
  using assms(1,2) unfolding h0_def forced_def h1_def c_def
  by (simp_all add: generateColumn_A_def Let_def createColumnTiles_eq split: prod.splits)

lemma js_gt_pred: "js_gt (js_sub a (Some 1)) (Some 0) \<Longrightarrow> js_gt a (Some 0)"
  by (auto simp: js_gt_def js_sub_def split: option.splits)

lemma generateColumn_A_step:
  assumes inv: "genInv_A s" and d: "drawsOK d"
  shows "heightOK (fst (generateColumn_A x d s)) \<and> genInv_A (snd (generateColumn_A x d s))"
proof -
  have u0: "unitDraw (heightDraws d 0)" using d by (simp add: drawsOK_height)
  have uf: "unitDraw (forcedDraw d)" using d by (simp add: drawsOK_def)
  consider (ramp) "js_lt (totalColumnsGenerated s) (Some 30)"
    | (pattern) "\<not> js_lt (totalColumnsGenerated s) (Some 30)" "js_gt (patternColumnsRemaining s) (Some 0)"
    | (draw) "\<not> js_lt (totalColumnsGenerated s) (Some 30)" "\<not> js_gt (patternColumnsRemaining s) (Some 0)"
    by blast
  then show ?thesis
  proof cases
    case ramp
    show ?thesis using inv
      by (simp add: generateColumn_A_ramp[OF ramp] genInv_A_def heightOK_def)
  next
    case pattern
    show ?thesis using inv pattern(2)
      by (auto simp: generateColumn_A_pattern[OF pattern] genInv_A_def dest: js_gt_pred)
  next
    case draw
    have h: "heightOK (fst (generateColumn_A x d s))"
      using u0 uf by (simp add: generateColumn_A_draw[OF draw] heightOK_Between07 heightOK_Between1)
    have "patternHeight (snd (generateColumn_A x d s)) = fst (generateColumn_A x d s)
          \<or> (patternHeight (snd (generateColumn_A x d s)) = patternHeight s
             \<and> patternColumnsRemaining (snd (generateColumn_A x d s)) = patternColumnsRemaining s)"
      by (simp add: generateColumn_A_draw[OF draw])
    then show ?thesis using h draw(2) by (auto simp: genInv_A_def)
  qed
qed

lemma generateColumn_step:
  assumes inv: "genInv s" and sc: "0 \<le> score s" and d: "drawsOK d"
  shows "heightOK (fst (generateColumn x d s)) \<and> genInv (snd (generateColumn x d s))"
proof -
  have u: "\<And>k. k \<le> 10 \<Longrightarrow> unitDraw (heightDraws d k)" using d by (simp add: drawsOK_height)
  have uf: "unitDraw (forcedDraw d)" using d by (simp add: drawsOK_def)
  have m: "0 \<le> \<lfloor>score s / 200\<rfloor>" using sc by simp
  consider (ramp) "js_lt (totalColumnsGenerated s) (Some 30)"
    | (pattern) "\<not> js_lt (totalColumnsGenerated s) (Some 30)" "js_gt (patternColumnsRemaining s) (Some 0)"
    | (draw) "\<not> js_lt (totalColumnsGenerated s) (Some 30)" "\<not> js_gt (patternColumnsRemaining s) (Some 0)"
    by blast
  then show ?thesis
  proof cases
    case ramp
    show ?thesis using inv
      by (simp add: generateColumn_ramp[OF ramp] genInv_def genInv_A_def heightOK_def)
  next
    case pattern
    show ?thesis using inv pattern(2)
      by (auto simp: generateColumn_pattern[OF pattern] genInv_def genInv_A_def heightOK_def
               dest: js_gt_pred split: option.splits)
  next
    case draw
    let ?m = "2 + \<lfloor>score s / 200\<rfloor>"
    let ?h0 = "drawHeight (heightDraws d) (previousColumnHeight s) ?m 0"
    have h0: "heightOK ?h0"
    proof (cases "previousColumnHeight s")
      case None
      then show ?thesis using u[of 0] by (simp add: drawHeight_undefined heightOK_Between07)
    next
      case (Some p)
      then show ?thesis using drawHeight_ok[of "heightDraws d" 0 p ?m] u by simp
    qed
    have h: "heightOK (fst (generateColumn x d s))"
    proof (cases "?h0 = Some 0 \<and> js_gt (js_add (consecutiveEmptyColumns s) (Some 1)) (Some 2)")
      case False
      then show ?thesis using h0 by (auto simp: generateColumn_draw(1)[OF draw])
    next
      case True
      then obtain c where c: "consecutiveEmptyColumns s = Some c"
        by (auto simp: js_gt_def js_add_def split: option.splits)
      then obtain p where p: "previousColumnHeight s = Some p" "0 \<le> p" "p \<le> 7"
        using inv by (auto simp: genInv_def split: option.splits)
      have "1 \<le> min 7 (p + ?m)" using p m by simp
      then show ?thesis using True p uf
        by (simp add: generateColumn_draw(1)[OF draw] BetweenJ_def js_min_def js_add_def
                      heightOK_Between1)
    qed
    obtain v where v: "fst (generateColumn x d s) = Some v" "0 \<le> v" "v \<le> 7"
      using h by (auto simp: heightOK_def split: option.splits)
    have "previousColumnHeight (snd (generateColumn x d s)) = fst (generateColumn x d s)"
         "patternHeight (snd (generateColumn x d s)) = fst (generateColumn x d s)"
      by (simp_all add: generateColumn_draw[OF draw])
    then have pv: "previousColumnHeight (snd (generateColumn x d s)) = Some v"
         and ph: "patternHeight (snd (generateColumn x d s)) = Some v"
      using v(1) by simp_all
    show ?thesis using h v pv ph
      by (simp add: genInv_def genInv_A_def heightOK_def)
  qed
qed

lemma genInv_score [simp]: "genInv (s\<lparr>score := sc\<rparr>) = genInv s"
  by (simp add: genInv_def genInv_A_def split: option.splits)

lemma genInv_A_score [simp]: "genInv_A (s\<lparr>score := sc\<rparr>) = genInv_A s"
  by (simp add: genInv_A_def)

lemma generateColumns_ok:
  "genInv s \<Longrightarrow> list_all (\<lambda>(x, sc, d). 0 \<le> sc \<and> drawsOK d) calls
   \<Longrightarrow> list_all heightOK (fst (generateColumns calls s))"
proof (induction calls arbitrary: s)
  case Nil
  then show ?case by simp
next
  case (Cons call calls)
  obtain x sc d where call: "call = (x, sc, d)" by (cases call) auto
  have ok: "0 \<le> sc" "drawsOK d" and rest: "list_all (\<lambda>(x, sc, d). 0 \<le> sc \<and> drawsOK d) calls"
    using Cons.prems(2) call by simp_all
  have step: "heightOK (fst (generateColumn x d (s\<lparr>score := sc\<rparr>)))"
             "genInv (snd (generateColumn x d (s\<lparr>score := sc\<rparr>)))"
    using generateColumn_step[of "s\<lparr>score := sc\<rparr>" d x] Cons.prems(1) ok by simp_all
  show ?case using step Cons.IH[OF step(2) rest] call
    by (simp add: Let_def case_prod_beta)
qed

lemma generateColumns_A_ok:
  "genInv_A s \<Longrightarrow> list_all (\<lambda>(x, sc, d). drawsOK d) calls
   \<Longrightarrow> list_all heightOK (fst (generateColumns_A calls s))"
proof (induction calls arbitrary: s)
  case Nil
  then show ?case by simp
next
  case (Cons call calls)
  obtain x sc d where call: "call = (x, sc, d)" by (cases call) auto
  have ok: "drawsOK d" and rest: "list_all (\<lambda>(x, sc, d). drawsOK d) calls"
    using Cons.prems(2) call by simp_all
  have step: "heightOK (fst (generateColumn_A x d (s\<lparr>score := sc\<rparr>)))"
             "genInv_A (snd (generateColumn_A x d (s\<lparr>score := sc\<rparr>)))"
    using generateColumn_A_step[of "s\<lparr>score := sc\<rparr>" d x] Cons.prems(1) ok by simp_all
  show ?case using step Cons.IH[OF step(2) rest] call
    by (simp add: Let_def case_prod_beta)
qed

lemma total_generateColumn [simp]:
  "totalColumnsGenerated (snd (generateColumn x d s)) = js_add (totalColumnsGenerated s) (Some 1)"
  by (cases "js_lt (totalColumnsGenerated s) (Some 30)"; cases "js_gt (patternColumnsRemaining s) (Some 0)")
     (simp_all add: generateColumn_ramp generateColumn_pattern generateColumn_draw)

lemma total_generateColumn_A [simp]:
  "totalColumnsGenerated (snd (generateColumn_A x d s)) = js_add (totalColumnsGenerated s) (Some 1)"
  by (cases "js_lt (totalColumnsGenerated s) (Some 30)"; cases "js_gt (patternColumnsRemaining s) (Some 0)")
     (simp_all add: generateColumn_A_ramp generateColumn_A_pattern generateColumn_A_draw)

lemma generateColumns_append:
  "generateColumns (a @ b) s =
     (fst (generateColumns a s) @ fst (generateColumns b (snd (generateColumns a s))),
      snd (generateColumns b (snd (generateColumns a s))))"
proof (induction a arbitrary: s)
  case Nil
  then show ?case by simp
next
  case (Cons call a)
  then show ?case by (cases call) (simp add: case_prod_beta Let_def)
qed

lemma generateColumns_A_append:
  "generateColumns_A (a @ b) s =
     (fst (generateColumns_A a s) @ fst (generateColumns_A b (snd (generateColumns_A a s))),
      snd (generateColumns_A b (snd (generateColumns_A a s))))"
proof (induction a arbitrary: s)
  case Nil
  then show ?case by simp
next
  case (Cons call a)
  then show ?case by (cases call) (simp add: case_prod_beta Let_def)
qed

lemma length_generateColumns [simp]: "length (fst (generateColumns calls s)) = length calls"
proof (induction calls arbitrary: s)
  case Nil
  then show ?case by simp
next
  case (Cons call calls)
  then show ?case by (cases call) (simp add: case_prod_beta Let_def)
qed

lemma length_generateColumns_A [simp]: "length (fst (generateColumns_A calls s)) = length calls"
proof (induction calls arbitrary: s)
  case Nil
  then show ?case by simp
next
  case (Cons call calls)
  then show ?case by (cases call) (simp add: case_prod_beta Let_def)
qed

lemma ramp_up:
  "totalColumnsGenerated s = Some n \<Longrightarrow> n + int (length calls) \<le> 30
   \<Longrightarrow> fst (generateColumns calls s) = replicate (length calls) (Some 7)"
proof (induction calls arbitrary: s n)
  case Nil
  then show ?case by simp
next
  case (Cons call calls)
  obtain x sc d where call: "call = (x, sc, d)" by (cases call) auto
  let ?s = "s\<lparr>score := sc\<rparr>"
  have lt: "js_lt (totalColumnsGenerated ?s) (Some 30)"
    using Cons.prems by (simp add: js_lt_def)
  have "totalColumnsGenerated (snd (generateColumn x d ?s)) = Some (n + 1)"
    using Cons.prems(1) by (simp add: js_add_def)
  from Cons.IH[OF this] Cons.prems(2)
  have "fst (generateColumns calls (snd (generateColumn x d ?s))) = replicate (length calls) (Some 7)"
    by simp
  then show ?case using call generateColumn_ramp(1)[OF lt]
    by (simp add: case_prod_beta Let_def)
qed

lemma ramp_up_A:
  "totalColumnsGenerated s = Some n \<Longrightarrow> n + int (length calls) \<le> 30
   \<Longrightarrow> fst (generateColumns_A calls s) = replicate (length calls) (Some 7)"
proof (induction calls arbitrary: s n)
  case Nil
  then show ?case by simp
next
  case (Cons call calls)
  obtain x sc d where call: "call = (x, sc, d)" by (cases call) auto
  let ?s = "s\<lparr>score := sc\<rparr>"
  have lt: "js_lt (totalColumnsGenerated ?s) (Some 30)"
    using Cons.prems by (simp add: js_lt_def)
  have "totalColumnsGenerated (snd (generateColumn_A x d ?s)) = Some (n + 1)"
    using Cons.prems(1) by (simp add: js_add_def)
  from Cons.IH[OF this] Cons.prems(2)
  have "fst (generateColumns_A calls (snd (generateColumn_A x d ?s))) = replicate (length calls) (Some 7)"
    by simp
  then show ?case using call generateColumn_A_ramp(1)[OF lt]
    by (simp add: case_prod_beta Let_def)
qed

lemma first_thirty:
  assumes "totalColumnsGenerated s = Some 0"
  shows "take 30 (fst (generateColumns calls s)) = replicate (min 30 (length calls)) (Some 7)"
proof -
  have "generateColumns calls s = generateColumns (take 30 calls @ drop 30 calls) s" by simp
  also have "fst \<dots> = fst (generateColumns (take 30 calls) s)
      @ fst (generateColumns (drop 30 calls) (snd (generateColumns (take 30 calls) s)))"
    by (simp only: generateColumns_append fst_conv)
  finally have "take 30 (fst (generateColumns calls s)) = fst (generateColumns (take 30 calls) s)"
    by (simp add: min_def)
  moreover have "fst (generateColumns (take 30 calls) s) = replicate (length (take 30 calls)) (Some 7)"
    using assms by (intro ramp_up[where n = 0]) simp_all
  ultimately show ?thesis by (simp add: min.commute)
qed

lemma genInv_create_start: "genInv (create_start saved)"
  by (simp add: genInv_def genInv_A_def create_start_def js_gt_def)

lemma genInv_restart_reset: "genInv (restart_reset s)"
  by (simp add: genInv_def genInv_A_def restart_reset_def js_gt_def)

lemma genInv_create: "genInv (create saved ds)"
  by (simp add: genInv_def genInv_A_def create_def js_gt_def)

lemma genInv_A_create_start: "genInv_A (create_start saved)"
  by (simp add: genInv_A_def create_start_def js_gt_def)

lemma genInv_A_restart_reset_A: "genInv_A (restart_reset_A s)"
  by (simp add: genInv_A_def restart_reset_A_def js_gt_def)

lemma genInv_A_create_A: "genInv_A (create_A saved ds)"
  by (simp add: genInv_A_def create_A_def js_gt_def)

lemma drawsOK_constDraws: "unitDraw u \<Longrightarrow> unitDraw c \<Longrightarrow> drawsOK (constDraws u c)"
  by (simp add: drawsOK_def constDraws_def list_all_iff)

subsection \<open>Claim C6\<close>

text \<open>
  C6. Every generated column's height lies in \<open>[0, 7]\<close>, in both files: through the
  ramp-up, the pattern repeats, the height loop of \<^verbatim>\<open>part_000\<close> with its clamp after
  more than ten failed passes, and the forced redraw after too many empty columns. The
  calls start in any scene satisfying the generator's invariant (\<open>genInv\<close>, for
  \<^verbatim>\<open>game.js\<close> \<open>genInv_A\<close>), which holds when \<open>create\<close> starts generating, when it has
  finished and after the reset of \<open>restartGame\<close>; every \<open>Math.random()\<close> is in \<open>[0, 1)\<close>
  and the score is never negative.
\<close>

theorem column_heights_in_range:
  assumes "genInv s" and "genInv_A t"
    and "list_all (\<lambda>(x, sc, d). 0 \<le> sc \<and> drawsOK d) calls"
  shows "list_all heightOK (fst (generateColumns calls s))
       \<and> list_all heightOK (fst (generateColumns_A calls t))"
proof -
  have "list_all (\<lambda>(x, sc, d). drawsOK d) calls"
    using assms(3) by (auto simp: list_all_iff)
  then show ?thesis
    using generateColumns_ok[OF assms(1,3)] generateColumns_A_ok[OF assms(2)] by simp
qed

theorem column_heights_in_range_witness:
  "genInv (create_start None) \<and> genInv_A (create_start None)
   \<and> list_all heightOK (fst (generateColumns [(0, 0, constDraws (1 / 10) (1 / 2))] (create_start None)))
   \<and> list_all heightOK (fst (generateColumns_A [(0, 0, constDraws (1 / 10) (1 / 2))] (create_start None)))"
proof -
  have d: "drawsOK (constDraws (1 / 10) (1 / 2))"
    by (simp add: drawsOK_constDraws unitDraw_def)
  show ?thesis
    using column_heights_in_range[OF genInv_create_start[of None]
        genInv_A_create_start[of None], of "[(0, 0, constDraws (1 / 10) (1 / 2))]"] d
    by (simp add: genInv_create_start genInv_A_create_start)
qed

subsection \<open>After the ramp-up\<close>

lemma js_some [simp]:
  "js_lt (Some a) (Some b) = (a < b)" "js_gt (Some a) (Some b) = (a > b)"
  "js_add (Some a) (Some b) = Some (a + b)" "js_sub (Some a) (Some b) = Some (a - b)"
  "js_abs (Some a) = Some \<bar>a\<bar>"
  by (simp_all add: js_lt_def js_gt_def js_add_def js_sub_def js_abs_def)

lemma js_none [simp]:
  "js_lt None b = False" "js_gt None b = False" "js_add None b = None" "js_sub None b = None"
  "js_abs None = None" "js_gt a None = False" "js_sub a None = None"
  by (simp_all add: js_lt_def js_gt_def js_add_def js_sub_def js_abs_def split: option.splits)

lemma constDraws_fields [simp]:
  "heightDraws (constDraws u c) k = u" "forcedDraw (constDraws u c) = u"
  "patternDraw (constDraws u c) = c"
  by (simp_all add: constDraws_def)

lemma drawHeight_accept:
  "\<bar>Between 0 7 (rnd 0) - p\<bar> \<le> m \<Longrightarrow> drawHeight rnd (Some p) m 0 = Some (Between 0 7 (rnd 0))"
  by (subst drawHeight.simps) (simp add: Let_def)

lemma ramp_state:
  "totalColumnsGenerated s = Some n \<Longrightarrow> n + int (length calls) \<le> 30 \<Longrightarrow>
     totalColumnsGenerated (snd (generateColumns calls s)) = Some (n + int (length calls))
   \<and> patternColumnsRemaining (snd (generateColumns calls s)) = patternColumnsRemaining s
   \<and> patternHeight (snd (generateColumns calls s)) = patternHeight s
   \<and> consecutiveEmptyColumns (snd (generateColumns calls s)) = consecutiveEmptyColumns s
   \<and> (calls \<noteq> [] \<longrightarrow> previousColumnHeight (snd (generateColumns calls s)) = Some 7)"
proof (induction calls arbitrary: s n)
  case Nil
  then show ?case by simp
next
  case (Cons call calls)
  obtain x sc d where call: "call = (x, sc, d)" by (cases call) auto
  let ?s = "s\<lparr>score := sc\<rparr>"
  let ?t = "snd (generateColumn x d ?s)"
  have lt: "js_lt (totalColumnsGenerated ?s) (Some 30)"
    using Cons.prems by simp
  have t: "totalColumnsGenerated ?t = Some (n + 1)"
    using Cons.prems(1) by simp
  have ih: "totalColumnsGenerated (snd (generateColumns calls ?t)) = Some (n + 1 + int (length calls))
   \<and> patternColumnsRemaining (snd (generateColumns calls ?t)) = patternColumnsRemaining ?t
   \<and> patternHeight (snd (generateColumns calls ?t)) = patternHeight ?t
   \<and> consecutiveEmptyColumns (snd (generateColumns calls ?t)) = consecutiveEmptyColumns ?t
   \<and> (calls \<noteq> [] \<longrightarrow> previousColumnHeight (snd (generateColumns calls ?t)) = Some 7)"
    using Cons.IH[OF t] Cons.prems(2) by simp
  show ?case using ih call generateColumn_ramp[OF lt, of x d]
    by (cases "calls = []") (simp_all add: case_prod_beta Let_def)
qed

lemma ramp_state_A:
  "totalColumnsGenerated s = Some n \<Longrightarrow> n + int (length calls) \<le> 30 \<Longrightarrow>
     totalColumnsGenerated (snd (generateColumns_A calls s)) = Some (n + int (length calls))
   \<and> patternColumnsRemaining (snd (generateColumns_A calls s)) = patternColumnsRemaining s
   \<and> patternHeight (snd (generateColumns_A calls s)) = patternHeight s
   \<and> consecutiveEmptyColumns (snd (generateColumns_A calls s)) = consecutiveEmptyColumns s"
proof (induction calls arbitrary: s n)
  case Nil
  then show ?case by simp
next
  case (Cons call calls)
  obtain x sc d where call: "call = (x, sc, d)" by (cases call) auto
  let ?s = "s\<lparr>score := sc\<rparr>"
  let ?t = "snd (generateColumn_A x d ?s)"
  have lt: "js_lt (totalColumnsGenerated ?s) (Some 30)"
    using Cons.prems by simp
  have t: "totalColumnsGenerated ?t = Some (n + 1)"
    using Cons.prems(1) by simp
  have ih: "totalColumnsGenerated (snd (generateColumns_A calls ?t)) = Some (n + 1 + int (length calls))
   \<and> patternColumnsRemaining (snd (generateColumns_A calls ?t)) = patternColumnsRemaining ?t
   \<and> patternHeight (snd (generateColumns_A calls ?t)) = patternHeight ?t
   \<and> consecutiveEmptyColumns (snd (generateColumns_A calls ?t)) = consecutiveEmptyColumns ?t"
    using Cons.IH[OF t] Cons.prems(2) by simp
  show ?case using ih call generateColumn_A_ramp[OF lt, of x d]
    by (simp add: case_prod_beta Let_def)
qed

lemma drawn_pair:
  assumes n: "totalColumnsGenerated s = Some n" "30 \<le> n"
    and r: "patternColumnsRemaining s = Some 0"
    and p: "previousColumnHeight s = Some p"
    and c: "consecutiveEmptyColumns s = Some c" "c < 2"
    and h: "Between 0 7 u = h" "\<bar>h - p\<bar> \<le> 2"
  shows "fst (generateColumns [(x1, 0, constDraws u (1 / 2)), (x2, 0, d2)] s) = [Some h, Some h]"
    and "totalColumnsGenerated (snd (generateColumns [(x1, 0, constDraws u (1 / 2)), (x2, 0, d2)] s)) = Some (n + 2)"
    and "patternColumnsRemaining (snd (generateColumns [(x1, 0, constDraws u (1 / 2)), (x2, 0, d2)] s)) = Some 0"
    and "previousColumnHeight (snd (generateColumns [(x1, 0, constDraws u (1 / 2)), (x2, 0, d2)] s)) = Some h"
    and "consecutiveEmptyColumns (snd (generateColumns [(x1, 0, constDraws u (1 / 2)), (x2, 0, d2)] s))
         = Some (if h = 0 then c + 1 else 0)"
proof -
  let ?s = "s\<lparr>score := 0\<rparr>"
  let ?t = "snd (generateColumn x1 (constDraws u (1 / 2)) ?s)"
  have d1: "\<not> js_lt (totalColumnsGenerated ?s) (Some 30)" "\<not> js_gt (patternColumnsRemaining ?s) (Some 0)"
    using n r by simp_all
  have dh: "drawHeight (heightDraws (constDraws u (1 / 2))) (previousColumnHeight s) 2 0 = Some h"
    using p h drawHeight_accept[of "\<lambda>k. u" p 2] by (simp add: constDraws_def)
  have pc: "Between 1 12 (1 / 2) = 7" by (simp add: Between_def)
  have f1: "fst (generateColumn x1 (constDraws u (1 / 2)) ?s) = Some h"
    using c by (simp add: generateColumn_draw(1)[OF d1] dh)
  have t: "totalColumnsGenerated ?t = Some (n + 1)"
          "patternHeight ?t = Some h" "previousColumnHeight ?t = Some h"
          "consecutiveEmptyColumns ?t = Some (if h = 0 then c + 1 else 0)"
    using c n by (simp_all add: generateColumn_draw[OF d1] dh)
  have tr: "patternColumnsRemaining ?t = Some 1"
    using d1 by (simp add: generateColumn_def Let_def createColumnTiles_eq case_prod_beta pc)
  let ?t2 = "?t\<lparr>score := 0\<rparr>"
  have d2: "\<not> js_lt (totalColumnsGenerated ?t2) (Some 30)" "js_gt (patternColumnsRemaining ?t2) (Some 0)"
    using t n tr by simp_all
  show "fst (generateColumns [(x1, 0, constDraws u (1 / 2)), (x2, 0, d2)] s) = [Some h, Some h]"
    using f1 t by (simp add: case_prod_beta Let_def generateColumn_pattern(1)[OF d2])
  show "totalColumnsGenerated (snd (generateColumns [(x1, 0, constDraws u (1 / 2)), (x2, 0, d2)] s)) = Some (n + 2)"
    using t by (simp add: case_prod_beta Let_def)
  show "patternColumnsRemaining (snd (generateColumns [(x1, 0, constDraws u (1 / 2)), (x2, 0, d2)] s)) = Some 0"
    using tr by (simp add: case_prod_beta Let_def generateColumn_pattern(2)[OF d2])
  show "previousColumnHeight (snd (generateColumns [(x1, 0, constDraws u (1 / 2)), (x2, 0, d2)] s)) = Some h"
    using t by (simp add: case_prod_beta Let_def generateColumn_pattern(5)[OF d2])
  show "consecutiveEmptyColumns (snd (generateColumns [(x1, 0, constDraws u (1 / 2)), (x2, 0, d2)] s))
         = Some (if h = 0 then c + 1 else 0)"
    using t by (simp add: case_prod_beta Let_def generateColumn_pattern(4)[OF d2])
qed



lemma zero_triple_A:
  assumes n: "totalColumnsGenerated s = Some n" "30 \<le> n"
    and r: "patternColumnsRemaining s = Some 0"
    and c: "consecutiveEmptyColumns s = Some 0"
  shows "fst (generateColumns_A [(x1, sc1, constDraws (1 / 10) (1 / 10)), (x2, sc2, d2),
            (x3, sc3, constDraws (1 / 10) (1 / 10))] s) = [Some 0, Some 0, Some 0]"
proof -
  let ?d = "constDraws (1 / 10) (1 / 10)"
  have b: "Between 0 7 (1 / 10) = 0" "Between 1 15 (1 / 10) = 2"
    by (simp_all add: Between_def floor_eq_iff)
  let ?s1 = "s\<lparr>score := sc1\<rparr>"
  let ?t1 = "snd (generateColumn_A x1 ?d ?s1)"
  have d1: "\<not> js_lt (totalColumnsGenerated ?s1) (Some 30)" "\<not> js_gt (patternColumnsRemaining ?s1) (Some 0)"
    using n r by simp_all
  have f1: "fst (generateColumn_A x1 ?d ?s1) = Some 0"
    and t1: "totalColumnsGenerated ?t1 = Some (n + 1)" "patternColumnsRemaining ?t1 = Some 1"
       "patternHeight ?t1 = Some 0" "consecutiveEmptyColumns ?t1 = Some 1"
    using n c by (simp_all add: generateColumn_A_draw[OF d1] b)
  let ?s2 = "?t1\<lparr>score := sc2\<rparr>"
  let ?t2 = "snd (generateColumn_A x2 d2 ?s2)"
  have d2: "\<not> js_lt (totalColumnsGenerated ?s2) (Some 30)" "js_gt (patternColumnsRemaining ?s2) (Some 0)"
    using n t1 by simp_all
  have f2: "fst (generateColumn_A x2 d2 ?s2) = Some 0"
    and t2: "totalColumnsGenerated ?t2 = Some (n + 2)" "patternColumnsRemaining ?t2 = Some 0"
       "consecutiveEmptyColumns ?t2 = Some 1"
    using t1 by (simp_all add: generateColumn_A_pattern[OF d2])
  let ?s3 = "?t2\<lparr>score := sc3\<rparr>"
  have d3: "\<not> js_lt (totalColumnsGenerated ?s3) (Some 30)" "\<not> js_gt (patternColumnsRemaining ?s3) (Some 0)"
    using n t2 by simp_all
  have f3: "fst (generateColumn_A x3 ?d ?s3) = Some 0"
    using t2 by (simp add: generateColumn_A_draw(1)[OF d3] b)
  show ?thesis using f1 f2 f3 by (simp add: case_prod_beta Let_def)
qed

subsection \<open>Claim C5\<close>

text \<open>
  The ramp-up holds in a session that starts with the counter at 0, as \<open>restartGame\<close>
  leaves it: \<open>take 30\<close> of the heights is a list of 7s (lemmas \<open>first_thirty\<close>,
  \<open>ramp_up\<close>, \<open>ramp_up_A\<close>). In the first session it does not hold.
\<close>

lemma undefined_counter_stays:
  "totalColumnsGenerated s = None \<Longrightarrow> totalColumnsGenerated (snd (generateColumn x d s)) = None"
  by simp

text \<open>
  \<open>generateInitialColumns\<close> is a run of \<open>generateColumns\<close> over 59 columns, and
  \<open>restartGame\<close> starts it with the counter at 0: the first 30 columns after a restart
  have height 7.
\<close>

lemma generateColumn_lastColumnX:
  "generateColumn x d (s\<lparr>lastColumnX := v\<rparr>)
   = (fst (generateColumn x d s), (snd (generateColumn x d s))\<lparr>lastColumnX := v\<rparr>)"
  by (simp add: generateColumn_def Let_def createColumnTiles_eq case_prod_beta)

lemma generateColumns_lastColumnX:
  "generateColumns calls (s\<lparr>lastColumnX := v\<rparr>)
   = (fst (generateColumns calls s), (snd (generateColumns calls s))\<lparr>lastColumnX := v\<rparr>)"
proof (induction calls arbitrary: s)
  case Nil
  then show ?case by simp
next
  case (Cons call calls)
  obtain x sc d where call: "call = (x, sc, d)" by (cases call) auto
  have swap: "s\<lparr>lastColumnX := v, score := sc\<rparr> = (s\<lparr>score := sc\<rparr>)\<lparr>lastColumnX := v\<rparr>"
    by (rule scene.equality) simp_all
  show ?case
    unfolding call generateColumns.simps swap generateColumn_lastColumnX
    by (simp add: Cons.IH case_prod_beta Let_def)
qed

lemma initial_columns_fold:
  "foldl (\<lambda>s' i. (snd (generateColumn (xf i) (ds i) s'))\<lparr>lastColumnX := xf i\<rparr>) s ns
   = (if ns = [] then s
      else (snd (generateColumns (map (\<lambda>k. (xf k, score s, ds k)) ns) s))
             \<lparr>lastColumnX := xf (last ns)\<rparr>)"
proof (induction ns arbitrary: s)
  case Nil
  then show ?case by simp
next
  case (Cons k ns)
  let ?t = "snd (generateColumn (xf k) (ds k) s)"
  have sc: "score ?t = score s"
    by (simp add: generateColumn_def Let_def createColumnTiles_eq case_prod_beta)
  have same: "s\<lparr>score := score s\<rparr> = s" by simp
  show ?case
    by (simp add: Cons.IH sc same generateColumns_lastColumnX case_prod_beta Let_def)
qed

lemma numColumns_eq: "numColumns = 59"
proof -
  have "\<lceil>(160 / 3 :: rat)\<rceil> = 54" by (simp add: ceiling_eq_iff)
  then show ?thesis by (simp add: numColumns_def)
qed

lemma generateInitialColumns_calls:
  "generateInitialColumns ds s
   = (snd (generateColumns (initialCalls ds (score s)) s))\<lparr>lastColumnX := 870\<rparr>"
  unfolding generateInitialColumns_def Let_def initialCalls_def
    initial_columns_fold[where xf = "\<lambda>i. of_nat i * TILE_FULL_SIZE"]
  by (simp add: numColumns_eq)

lemma restart_ramps_up:
  "restartGame ds s = (snd (generateColumns (initialCalls ds 0) (restart_reset s)))\<lparr>lastColumnX := 870\<rparr>"
  "take 30 (fst (generateColumns (initialCalls ds 0) (restart_reset s))) = replicate 30 (Some 7)"
proof -
  show "restartGame ds s = (snd (generateColumns (initialCalls ds 0) (restart_reset s)))\<lparr>lastColumnX := 870\<rparr>"
    by (simp add: restartGame_def generateInitialColumns_calls) (simp add: restart_reset_def)
  have "totalColumnsGenerated (restart_reset s) = Some 0" by (simp add: restart_reset_def)
  from first_thirty[OF this, of "initialCalls ds 0"]
  show "take 30 (fst (generateColumns (initialCalls ds 0) (restart_reset s))) = replicate 30 (Some 7)"
    by (simp add: initialCalls_def numColumns_eq)
qed

text \<open>
  C5 (failing input). \<open>create\<close> calls \<open>generateInitialColumns\<close> before it assigns
  \<open>totalColumnsGenerated\<close>, so every initial column of the first session is generated
  with the counter undefined: \<open>undefined < 30\<close> is false and the height is drawn at random.
  With \<open>Math.random()\<close> returning 0.1 the first column of the first session has height 0,
  in both files.
\<close>

theorem first_session_not_ramped:
  "totalColumnsGenerated (create_start None) = None
   \<and> fst (generateColumn 0 (constDraws (1 / 10) (1 / 2)) (create_start None)) = Some 0
   \<and> fst (generateColumn_A 0 (constDraws (1 / 10) (1 / 2)) (create_start None)) = Some 0"
proof -
  let ?s = "create_start None"
  have s: "totalColumnsGenerated ?s = None" "patternColumnsRemaining ?s = None"
    "previousColumnHeight ?s = None" "consecutiveEmptyColumns ?s = None" "score ?s = 0"
    by (simp_all add: create_start_def)
  have d: "\<not> js_lt (totalColumnsGenerated ?s) (Some 30)" "\<not> js_gt (patternColumnsRemaining ?s) (Some 0)"
    using s by simp_all
  have b: "Between 0 7 (1 / 10) = 0" by (simp add: Between_def floor_eq_iff)
  show ?thesis
    using s b by (simp add: generateColumn_draw(1)[OF d] generateColumn_A_draw(1)[OF d] drawHeight_undefined)
qed

subsection \<open>Claim C1\<close>

lemma three_empty_columns_A:
  "fst (generateColumns_A emptyRunCalls_A (create_A None someDraws))
   = replicate 30 (Some 7) @ [Some 0, Some 0, Some 0]"
proof -
  let ?ramp = "replicate 30 (0 :: rat, 0 :: rat, constDraws (1 / 2) (1 / 2))"
  let ?s0 = "create_A None someDraws"
  have s0: "totalColumnsGenerated ?s0 = Some 0" "patternColumnsRemaining ?s0 = Some 0"
    "consecutiveEmptyColumns ?s0 = Some 0"
    by (simp_all add: create_A_def)
  have h30: "fst (generateColumns_A ?ramp ?s0) = replicate 30 (Some 7)"
    using ramp_up_A[OF s0(1), of ?ramp] by simp
  have s30: "totalColumnsGenerated (snd (generateColumns_A ?ramp ?s0)) = Some 30"
    "patternColumnsRemaining (snd (generateColumns_A ?ramp ?s0)) = Some 0"
    "consecutiveEmptyColumns (snd (generateColumns_A ?ramp ?s0)) = Some 0"
    using ramp_state_A[OF s0(1), of ?ramp] s0 by simp_all
  show ?thesis
    unfolding emptyRunCalls_A_def generateColumns_A_append fst_conv h30
    using zero_triple_A[OF s30(1) _ s30(2,3)] by simp
qed

lemma three_empty_columns:
  "fst (generateColumns emptyRunCalls (create None someDraws))
   = replicate 30 (Some 7)
     @ [Some 5, Some 5, Some 3, Some 3, Some 1, Some 1, Some 0, Some 0, Some 0, Some 0]"
proof -
  let ?ramp = "replicate 30 (0 :: rat, 0 :: rat, constDraws (1 / 2) (1 / 2))"
  let ?p5 = "[(0 :: rat, 0 :: rat, constDraws (11 / 16) (1 / 2)), (0, 0, constDraws (11 / 16) (1 / 2))]"
  let ?p3 = "[(0 :: rat, 0 :: rat, constDraws (7 / 16) (1 / 2)), (0, 0, constDraws (7 / 16) (1 / 2))]"
  let ?p1 = "[(0 :: rat, 0 :: rat, constDraws (3 / 16) (1 / 2)), (0, 0, constDraws (3 / 16) (1 / 2))]"
  let ?p0 = "[(0 :: rat, 0 :: rat, constDraws (1 / 16) (1 / 2)), (0, 0, constDraws (1 / 16) (1 / 2))]"
  let ?s0 = "create None someDraws"
  let ?s30 = "snd (generateColumns ?ramp ?s0)"
  let ?s32 = "snd (generateColumns ?p5 ?s30)"
  let ?s34 = "snd (generateColumns ?p3 ?s32)"
  let ?s36 = "snd (generateColumns ?p1 ?s34)"
  let ?s38 = "snd (generateColumns ?p0 ?s36)"
  have b: "Between 0 7 (11 / 16) = 5" "Between 0 7 (7 / 16) = 3" "Between 0 7 (3 / 16) = 1"
    "Between 0 7 (1 / 16) = 0"
    by (simp_all add: Between_def floor_eq_iff)
  have s0: "totalColumnsGenerated ?s0 = Some 0" "patternColumnsRemaining ?s0 = Some 0"
    "consecutiveEmptyColumns ?s0 = Some 0"
    by (simp_all add: create_def)
  have h30: "fst (generateColumns ?ramp ?s0) = replicate 30 (Some 7)"
    using ramp_up[OF s0(1), of ?ramp] by simp
  have s30: "totalColumnsGenerated ?s30 = Some 30" "patternColumnsRemaining ?s30 = Some 0"
    "consecutiveEmptyColumns ?s30 = Some 0" "previousColumnHeight ?s30 = Some 7"
    using ramp_state[OF s0(1), of ?ramp] s0 by simp_all
  have p5: "fst (generateColumns ?p5 ?s30) = [Some 5, Some 5]"
    "totalColumnsGenerated ?s32 = Some 32" "patternColumnsRemaining ?s32 = Some 0"
    "previousColumnHeight ?s32 = Some 5" "consecutiveEmptyColumns ?s32 = Some 0"
    using drawn_pair[OF s30(1) _ s30(2) s30(4) s30(3) _ b(1), of 0 0 "constDraws (11 / 16) (1 / 2)"]
    by simp_all
  have p3: "fst (generateColumns ?p3 ?s32) = [Some 3, Some 3]"
    "totalColumnsGenerated ?s34 = Some 34" "patternColumnsRemaining ?s34 = Some 0"
    "previousColumnHeight ?s34 = Some 3" "consecutiveEmptyColumns ?s34 = Some 0"
    using drawn_pair[OF p5(2) _ p5(3) p5(4) p5(5) _ b(2), of 0 0 "constDraws (7 / 16) (1 / 2)"]
    by simp_all
  have p1: "fst (generateColumns ?p1 ?s34) = [Some 1, Some 1]"
    "totalColumnsGenerated ?s36 = Some 36" "patternColumnsRemaining ?s36 = Some 0"
    "previousColumnHeight ?s36 = Some 1" "consecutiveEmptyColumns ?s36 = Some 0"
    using drawn_pair[OF p3(2) _ p3(3) p3(4) p3(5) _ b(3), of 0 0 "constDraws (3 / 16) (1 / 2)"]
    by simp_all
  have p0: "fst (generateColumns ?p0 ?s36) = [Some 0, Some 0]"
    "totalColumnsGenerated ?s38 = Some 38" "patternColumnsRemaining ?s38 = Some 0"
    "previousColumnHeight ?s38 = Some 0" "consecutiveEmptyColumns ?s38 = Some 1"
    using drawn_pair[OF p1(2) _ p1(3) p1(4) p1(5) _ b(4), of 0 0 "constDraws (1 / 16) (1 / 2)"]
    by simp_all
  have q0: "fst (generateColumns ?p0 ?s38) = [Some 0, Some 0]"
    using drawn_pair(1)[OF p0(2) _ p0(3) p0(4) p0(5) _ b(4), of 0 0 "constDraws (1 / 16) (1 / 2)"]
    by simp
  show ?thesis
    unfolding emptyRunCalls_def generateColumns_append fst_conv snd_conv h30 p5(1) p3(1) p1(1) p0(1) q0
    by simp
qed

text \<open>
  C1 (failing input). The empty-column counter counts the heights drawn, not the columns
  a pattern repeats. In \<^verbatim>\<open>game.js\<close> a drawn 0, its repeat and the next drawn 0 make
  three empty columns in a row (columns 31 to 33); in \<^verbatim>\<open>part_000\<close>, where every drawn
  height is repeated at least once, two drawn 0s make four (columns 37 to 40).
\<close>

theorem empty_run_of_three:
  "fst (generateColumns_A emptyRunCalls_A (create_A None someDraws))
     = replicate 30 (Some 7) @ [Some 0, Some 0, Some 0]
   \<and> fst (generateColumns emptyRunCalls (create None someDraws))
     = replicate 30 (Some 7)
       @ [Some 5, Some 5, Some 3, Some 3, Some 1, Some 1, Some 0, Some 0, Some 0, Some 0]"
  by (rule conjI[OF three_empty_columns_A three_empty_columns])

section \<open>The frame: jumping, recharging, grounding\<close>

subsection \<open>What each step of a frame leaves alone\<close>

lemma generateColumn_frame:
  "jumpCharge (snd (generateColumn x d s)) = jumpCharge s"
  "player (snd (generateColumn x d s)) = player s"
  "isGameOver (snd (generateColumn x d s)) = isGameOver s"
  "score (snd (generateColumn x d s)) = score s"
  "jumpHoldStartTime (snd (generateColumn x d s)) = jumpHoldStartTime s"
  "isSliding (snd (generateColumn x d s)) = isSliding s"
  "isChargingJump (snd (generateColumn x d s)) = isChargingJump s"
  "chargeJumpTime (snd (generateColumn x d s)) = chargeJumpTime s"
  "highScore (snd (generateColumn x d s)) = highScore s"
  by (simp_all add: generateColumn_def Let_def createColumnTiles_eq case_prod_beta)

lemma generateInitialColumns_frame_aux:
  "jumpCharge (foldl (\<lambda>s' i. let x = of_nat i * TILE_FULL_SIZE
                    in (snd (generateColumn x (ds i) s'))\<lparr>lastColumnX := x\<rparr>) s ns) = jumpCharge s
 \<and> player (foldl (\<lambda>s' i. let x = of_nat i * TILE_FULL_SIZE
                    in (snd (generateColumn x (ds i) s'))\<lparr>lastColumnX := x\<rparr>) s ns) = player s
 \<and> isGameOver (foldl (\<lambda>s' i. let x = of_nat i * TILE_FULL_SIZE
                    in (snd (generateColumn x (ds i) s'))\<lparr>lastColumnX := x\<rparr>) s ns) = isGameOver s
 \<and> jumpHoldStartTime (foldl (\<lambda>s' i. let x = of_nat i * TILE_FULL_SIZE
                    in (snd (generateColumn x (ds i) s'))\<lparr>lastColumnX := x\<rparr>) s ns) = jumpHoldStartTime s
 \<and> isSliding (foldl (\<lambda>s' i. let x = of_nat i * TILE_FULL_SIZE
                    in (snd (generateColumn x (ds i) s'))\<lparr>lastColumnX := x\<rparr>) s ns) = isSliding s
 \<and> score (foldl (\<lambda>s' i. let x = of_nat i * TILE_FULL_SIZE
                    in (snd (generateColumn x (ds i) s'))\<lparr>lastColumnX := x\<rparr>) s ns) = score s"
  by (induction ns arbitrary: s) (simp_all add: generateColumn_frame Let_def)

lemma generateInitialColumns_frame:
  "jumpCharge (generateInitialColumns ds s) = jumpCharge s"
  "player (generateInitialColumns ds s) = player s"
  "isGameOver (generateInitialColumns ds s) = isGameOver s"
  "jumpHoldStartTime (generateInitialColumns ds s) = jumpHoldStartTime s"
  "isSliding (generateInitialColumns ds s) = isSliding s"
  "score (generateInitialColumns ds s) = score s"
  unfolding generateInitialColumns_def using generateInitialColumns_frame_aux[of ds s "[0..<numColumns]"]
  by simp_all

lemma triggerGameOver_frame:
  "jumpCharge (triggerGameOver s) = jumpCharge s"
  "isSliding (triggerGameOver s) = isSliding s"
  "vx (player (triggerGameOver s)) = 0"
  "isGameOver (triggerGameOver s)"
  by (simp_all add: triggerGameOver_def Let_def)

lemma checkGrounded_frame:
  "jumpCharge (checkGrounded i s) = jumpCharge s"
  "isSliding (checkGrounded i s) = isSliding s"
  by (simp_all add: checkGrounded_def Let_def case_prod_beta triggerGameOver_frame)

lemma handleRotation_frame:
  "jumpCharge (handleRotation dt s) = jumpCharge s"
  "isSliding (handleRotation dt s) = isSliding s"
  "vx (player (handleRotation dt s)) = vx (player s)"
  by (simp_all add: handleRotation_def Let_def)

lemma scrollWorld_frame:
  "jumpCharge (scrollWorld dt d s) = jumpCharge s"
  "isSliding (scrollWorld dt d s) = isSliding s"
  "player (scrollWorld dt d s) = player s"
  by (simp_all add: scrollWorld_def Let_def generateColumn_frame)

lemma handleJumpCharge_charge:
  "jumpCharge (handleJumpCharge dt s) = min JUMP_CHARGE_MAX (jumpCharge s + JUMP_CHARGE_RATE * dt)"
  by (simp add: handleJumpCharge_def Let_def)

lemma handleJumpCharge_frame:
  "isSliding (handleJumpCharge dt s) = isSliding s"
  "player (handleJumpCharge dt s) = player s"
  by (simp_all add: handleJumpCharge_def Let_def)

lemma update_running_charge:
  assumes "\<not> isGameOver s"
  shows "jumpCharge (update i s)
     = min JUMP_CHARGE_MAX
         (jumpCharge (handleJump i (checkGrounded i (s\<lparr>colorWaveTime := colorWaveTime s + delta i / 1000\<rparr>)))
          + JUMP_CHARGE_RATE * (delta i / 1000))"
  using assms
  by (simp add: update_def Let_def triggerGameOver_frame scrollWorld_frame
                handleJumpCharge_charge handleRotation_frame)



lemma bufferJump_fields [simp]:
  "jumpCharge (bufferJump i s) = jumpCharge s"
  "player (bufferJump i s) = player s"
  "isSliding (bufferJump i s) = isSliding s"
  "isChargingJump (bufferJump i s) = isChargingJump s"
  "chargeJumpTime (bufferJump i s) = chargeJumpTime s"
  "jumpHoldStartTime (bufferJump i s) = jumpHoldStartTime s"
  "lastGroundedTime (bufferJump i s) = lastGroundedTime s"
  by (simp_all add: bufferJump_def)

lemma chargeRatio_bufferJump [simp]: "chargeRatio (bufferJump i s) = chargeRatio s"
  by (simp add: chargeRatio_def)

lemma handleJump_charge:
  "jumpCharge (handleJump i s) =
     (case jumpPath i s of
        DoubleJump \<Rightarrow> jumpCharge s - JUMP_CHARGE_COST
      | ChargeLaunch \<Rightarrow> (if chargeJumpTime s > 0 then 0 else jumpCharge s)
      | _ \<Rightarrow> jumpCharge s)"
  by (simp add: handleJump_def Let_def regularJump_def split: jumpPath.splits)

lemma handleJump_vx:
  "vx (player (handleJump i s)) =
     (case jumpPath i s of
        ChargeLaunch \<Rightarrow> CHARGE_JUMP_HORIZONTAL_VELOCITY * chargeRatio s
      | DoubleJump \<Rightarrow> 0
      | FreeJump \<Rightarrow> 0
      | TapRelease \<Rightarrow> (if isGrounded (player s) \<or> now i - lastGroundedTime s \<le> 100
                       then 0 else vx (player s))
      | _ \<Rightarrow> vx (player s))"
  by (simp add: handleJump_def Let_def regularJump_def split: jumpPath.splits)

lemma handleJump_vy:
  "vy (player (handleJump i s)) =
     (case jumpPath i s of
        ChargeLaunch \<Rightarrow> CHARGE_JUMP_MIN_VELOCITY
            + (CHARGE_JUMP_MAX_VELOCITY - CHARGE_JUMP_MIN_VELOCITY) * chargeRatio s
      | DoubleJump \<Rightarrow> JUMP_VELOCITY
      | FreeJump \<Rightarrow> JUMP_VELOCITY
      | TapRelease \<Rightarrow> (if isGrounded (player s) \<or> now i - lastGroundedTime s \<le> 100
                       then JUMP_VELOCITY else vy (player s))
      | _ \<Rightarrow> vy (player s))"
  by (simp add: handleJump_def Let_def regularJump_def split: jumpPath.splits)

lemma handleJump_isSliding: "isSliding (handleJump i s) = isSliding s"
  by (simp add: handleJump_def Let_def regularJump_def split: jumpPath.splits)

lemma doubleJump_guard:
  "\<not> isSliding s \<Longrightarrow>
   (jumpPath i s = DoubleJump) =
     (justDown i \<and> \<not> isGrounded (player s) \<and> now i - lastGroundedTime s > 100
      \<and> vy (player s) < 0 \<and> \<not> isChargingJump s \<and> jumpCharge s \<ge> JUMP_CHARGE_COST)"
  by (auto simp: jumpPath_def Let_def split: option.splits if_splits)

lemma doubleJump_charge_guard: "jumpPath i s = DoubleJump \<Longrightarrow> jumpCharge s \<ge> JUMP_CHARGE_COST"
  by (auto simp: jumpPath_def Let_def split: option.splits if_splits)

lemma handleJump_charge_bounds:
  assumes "0 \<le> jumpCharge s" "jumpCharge s \<le> JUMP_CHARGE_MAX"
  shows "0 \<le> jumpCharge (handleJump i s) \<and> jumpCharge (handleJump i s) \<le> JUMP_CHARGE_MAX"
proof (cases "jumpPath i s = DoubleJump")
  case True
  then show ?thesis using assms doubleJump_charge_guard[OF True]
    by (simp add: handleJump_charge)
next
  case False
  then show ?thesis using assms
    by (simp add: handleJump_charge split: jumpPath.splits)
qed

lemma restartGame_charge: "jumpCharge (restartGame ds s) = JUMP_CHARGE_MAX"
  by (simp add: restartGame_def generateInitialColumns_frame restart_reset_def)

lemma create_charge: "jumpCharge (create saved ds) = JUMP_CHARGE_MAX"
  by (simp add: create_def generateInitialColumns_frame create_start_def)

lemma update_charge_bounds:
  assumes "0 \<le> jumpCharge s" "jumpCharge s \<le> JUMP_CHARGE_MAX" "0 \<le> delta i"
  shows "0 \<le> jumpCharge (update i s) \<and> jumpCharge (update i s) \<le> JUMP_CHARGE_MAX"
proof (cases "isGameOver s")
  case True
  then show ?thesis using assms by (simp add: update_def restartGame_charge)
next
  case False
  let ?s2 = "checkGrounded i (s\<lparr>colorWaveTime := colorWaveTime s + delta i / 1000\<rparr>)"
  have "0 \<le> jumpCharge ?s2" "jumpCharge ?s2 \<le> JUMP_CHARGE_MAX"
    using assms by (simp_all add: checkGrounded_frame)
  from handleJump_charge_bounds[OF this]
  have "0 \<le> jumpCharge (handleJump i ?s2)" "jumpCharge (handleJump i ?s2) \<le> JUMP_CHARGE_MAX"
    by simp_all
  moreover have "0 \<le> JUMP_CHARGE_RATE * (delta i / 1000)" using assms(3) by simp
  ultimately show ?thesis
    unfolding update_running_charge[OF False] by (simp add: min_def)
qed



lemma handleRotation_player:
  "px (player (handleRotation dt s)) = px (player s)"
  "py (player (handleRotation dt s)) = py (player s)"
  "vy (player (handleRotation dt s)) = vy (player s)"
  "isGrounded (player (handleRotation dt s)) = isGrounded (player s)"
  by (simp_all add: handleRotation_def Let_def)

lemma isGameOver_frames:
  "isGameOver (handleJump i s) = isGameOver s"
  "isGameOver (handleRotation dt s) = isGameOver s"
  "isGameOver (handleJumpCharge dt s) = isGameOver s"
  "isGameOver (scrollWorld dt d s) = isGameOver s"
  by (simp_all add: handleJump_def handleRotation_def handleJumpCharge_def scrollWorld_def Let_def
        regularJump_def bufferJump_def generateColumn_frame split: jumpPath.splits)

lemma update_running_player:
  assumes "\<not> isGameOver s"
  shows "player (update i s) =
     (let p = player (handleRotation (delta i / 1000)
                (handleJump i (checkGrounded i (s\<lparr>colorWaveTime := colorWaveTime s + delta i / 1000\<rparr>))))
      in if py p > screenHeight + 50 then p\<lparr>vx := 0, vy := 0\<rparr> else p)"
  using assms
  by (simp add: update_def Let_def triggerGameOver_def scrollWorld_frame handleJumpCharge_frame)

lemma update_running_isGameOver:
  assumes "\<not> isGameOver s"
  shows "isGameOver (update i s) =
     (isGameOver (checkGrounded i (s\<lparr>colorWaveTime := colorWaveTime s + delta i / 1000\<rparr>))
      \<or> py (player (handleJump i (checkGrounded i (s\<lparr>colorWaveTime := colorWaveTime s + delta i / 1000\<rparr>))))
          > screenHeight + 50)"
  using assms
  by (simp add: update_def Let_def triggerGameOver_frame scrollWorld_frame handleJumpCharge_frame
        isGameOver_frames handleRotation_player)

lemma handleJump_idle:
  "jumpPath i s = NoJump \<Longrightarrow> \<not> justDown i \<Longrightarrow> handleJump i s = s"
  by (simp add: handleJump_def bufferJump_def)

lemma keyTick_fields [simp]:
  "now (keyTick t dt a b c) = t" "delta (keyTick t dt a b c) = dt" "loopDelta (keyTick t dt a b c) = dt"
  "justDown (keyTick t dt a b c) = a" "justUp (keyTick t dt a b c) = b" "isDown (keyTick t dt a b c) = c"
  by (simp_all add: keyTick_def)

lemma landingScene_fields:
  "isGameOver landingScene = False"
  "player landingScene = \<lparr>px = 150, py = 265, vx = 20, vy = 100, isGrounded = False,
      canDoubleJump = False, targetRotation = 0, isRotating = False, angle = 0, displayHeight = 13\<rparr>"
  "greenObstacles landingScene = [\<lparr>ox = 145, oy = 272, active = True\<rparr>, \<lparr>ox = 145, oy = 287, active = True\<rparr>]"
  "isSliding landingScene = False" "isChargingJump landingScene = False"
  "jumpHoldStartTime landingScene = None" "jumpBufferTime landingScene = 0"
  "lastGroundedTime landingScene = 0" "jumpCharge landingScene = 27 / 2"
  by (simp_all add: landingScene_def runningScene_def restart_reset_def create_start_def createPlayer_def)

lemma landing_checkGrounded:
  "checkGrounded (keyTick 5000 16 False False False) (landingScene\<lparr>colorWaveTime := c\<rparr>)
   = landingScene\<lparr>colorWaveTime := c,
       player := \<lparr>px = 150, py = 531 / 2, vx = 20, vy = 0, isGrounded = True,
          canDoubleJump = False, targetRotation = 0, isRotating = True, angle = 0, displayHeight = 13\<rparr>,
       lastGroundedTime := 5000\<rparr>"
  by (simp add: checkGrounded_def checkObstacle_def Let_def landingScene_fields)

lemma landing_handleJump:
  "handleJump (keyTick 5000 16 False False False)
     (checkGrounded (keyTick 5000 16 False False False) (landingScene\<lparr>colorWaveTime := c\<rparr>))
   = checkGrounded (keyTick 5000 16 False False False) (landingScene\<lparr>colorWaveTime := c\<rparr>)"
proof (rule handleJump_idle)
  show "jumpPath (keyTick 5000 16 False False False)
          (checkGrounded (keyTick 5000 16 False False False) (landingScene\<lparr>colorWaveTime := c\<rparr>)) = NoJump"
    by (simp add: landing_checkGrounded jumpPath_def bufferJump_def Let_def landingScene_fields)
qed simp

subsection \<open>The angle setter and the scrolling loop\<close>

lemma floor_halves: "\<lfloor>1 / 2 :: rat\<rfloor> = 0" "\<lfloor>3 / 2 :: rat\<rfloor> = 1"
  by (simp_all add: floor_eq_iff)

lemma js_rem_turns: "js_rem 0 360 = 0" "js_rem 180 360 = 180" "js_rem 540 360 = 180"
  by (simp_all add: js_rem_def floor_halves)

text \<open>The assignments \<open>player.angle = 0\<close> store 0.\<close>

lemma WrapDegrees_zero: "WrapDegrees 0 = 0"
  by (simp add: WrapDegrees_def js_rem_turns)

lemma js_rem_range:
  assumes "0 \<le> a"
  shows "0 \<le> js_rem a 360 \<and> js_rem a 360 < 360"
proof -
  have "\<not> a / 360 < 0" using assms by simp
  then have e: "js_rem a 360 = a - 360 * of_int \<lfloor>a / 360\<rfloor>" by (simp add: js_rem_def)
  have "of_int \<lfloor>a / 360\<rfloor> \<le> a / 360" "a / 360 < of_int \<lfloor>a / 360\<rfloor> + 1" by linarith+
  then show ?thesis unfolding e by (simp add: field_simps)
qed

lemma js_rem_lower: "- 360 < js_rem a 360"
proof (cases "a / 360 < 0")
  case True
  then have e: "js_rem a 360 = a - 360 * of_int \<lceil>a / 360\<rceil>" by (simp add: js_rem_def)
  have "of_int \<lceil>a / 360\<rceil> < a / 360 + 1" by linarith
  then show ?thesis unfolding e by (simp add: field_simps)
next
  case False
  then have "0 \<le> a" by (simp add: field_simps)
  from js_rem_range[OF this] show ?thesis by simp
qed

text \<open>The angle read back from the sprite lies in \<open>[-180, 180)\<close>.\<close>

lemma WrapDegrees_range: "- 180 \<le> WrapDegrees a \<and> WrapDegrees a < 180"
proof -
  have "0 \<le> js_rem (a - (- 180)) 360 + 360" using js_rem_lower[of "a - (- 180)"] by simp
  from js_rem_range[OF this] show ?thesis by (simp add: WrapDegrees_def)
qed

text \<open>
  The tile that follows a destroyed one keeps its place in this frame: of a column of
  height 2 at \<open>x = - 27\<close> and a tile at \<open>x = - 12\<close>, scrolled by 4 px, the bottom tile is
  destroyed, the top tile stays at \<open>- 27\<close> and the third moves to \<open>- 16\<close>.
\<close>

lemma scrollObstacles_skips:
  "scrollObstacles 4 [\<lparr>ox = - 27, oy = 287, active = True\<rparr>, \<lparr>ox = - 27, oy = 272, active = True\<rparr>,
      \<lparr>ox = - 12, oy = 287, active = True\<rparr>]
   = [\<lparr>ox = - 27, oy = 272, active = True\<rparr>, \<lparr>ox = - 16, oy = 287, active = True\<rparr>]"
  by simp

lemma scrollObstacles_active:
  "\<forall>ob \<in> set obs. active ob \<Longrightarrow> \<forall>ob \<in> set (scrollObstacles a obs). active ob"
  by (induction a obs rule: scrollObstacles.induct) (simp_all add: Let_def)

subsection \<open>Claim C10\<close>

lemma quiet_frame_path:
  "\<not> justDown i \<Longrightarrow> \<not> justUp i \<Longrightarrow> jumpPath i s \<noteq> DoubleJump \<and> jumpPath i s \<noteq> ChargeLaunch"
  by (auto simp: jumpPath_def Let_def split: option.splits if_splits)

lemma quiet_frame_charge:
  assumes "\<not> justDown i" "\<not> justUp i"
  shows "jumpCharge (handleJump i s) = jumpCharge s"
  using quiet_frame_path[OF assms, of s] by (simp add: handleJump_charge split: jumpPath.splits)

text \<open>
  C10. \<open>handleJumpCharge\<close> adds \<open>JUMP_CHARGE_RATE * dt\<close> to the charge and caps it at
  \<open>JUMP_CHARGE_MAX\<close>, whatever \<open>isGrounded\<close> is; \<open>update\<close> calls it in every running
  frame, so the frame's charge is the charge \<open>handleJump\<close> left plus the recharge, and in
  a frame without a key edge it is the old charge plus the recharge; a player in the air
  whose charge plus recharge reaches \<open>JUMP_CHARGE_COST\<close> has the cost again.
\<close>

theorem recharge_not_gated:
  "jumpCharge (handleJumpCharge dt s) = min JUMP_CHARGE_MAX (jumpCharge s + JUMP_CHARGE_RATE * dt)
   \<and> jumpCharge (handleJumpCharge dt (s\<lparr>player := (player s)\<lparr>isGrounded := g\<rparr>\<rparr>))
       = jumpCharge (handleJumpCharge dt s)
   \<and> (\<not> isGameOver s \<longrightarrow>
        jumpCharge (update i s)
        = min JUMP_CHARGE_MAX
            (jumpCharge (handleJump i
               (checkGrounded i (s\<lparr>colorWaveTime := colorWaveTime s + delta i / 1000\<rparr>)))
             + JUMP_CHARGE_RATE * (delta i / 1000)))
   \<and> (\<not> isGameOver s \<and> \<not> justDown i \<and> \<not> justUp i \<longrightarrow>
        jumpCharge (update i s)
        = min JUMP_CHARGE_MAX (jumpCharge s + JUMP_CHARGE_RATE * (delta i / 1000)))
   \<and> (\<not> isGrounded (player s) \<and> JUMP_CHARGE_COST \<le> jumpCharge s + JUMP_CHARGE_RATE * dt \<longrightarrow>
        JUMP_CHARGE_COST \<le> jumpCharge (handleJumpCharge dt s))"
proof -
  have a: "jumpCharge (handleJumpCharge dt s)
      = min JUMP_CHARGE_MAX (jumpCharge s + JUMP_CHARGE_RATE * dt)" for dt s
    by (rule handleJumpCharge_charge)
  have b: "jumpCharge (handleJumpCharge dt (s\<lparr>player := (player s)\<lparr>isGrounded := g\<rparr>\<rparr>))
      = jumpCharge (handleJumpCharge dt s)"
    by (simp add: a)
  have c: "jumpCharge (update i s)
        = min JUMP_CHARGE_MAX
            (jumpCharge (handleJump i
               (checkGrounded i (s\<lparr>colorWaveTime := colorWaveTime s + delta i / 1000\<rparr>)))
             + JUMP_CHARGE_RATE * (delta i / 1000))" if "\<not> isGameOver s"
    by (rule update_running_charge[OF that])
  have d: "jumpCharge (update i s)
        = min JUMP_CHARGE_MAX (jumpCharge s + JUMP_CHARGE_RATE * (delta i / 1000))"
    if "\<not> isGameOver s" "\<not> justDown i" "\<not> justUp i"
    unfolding c[OF that(1)] by (simp add: quiet_frame_charge[OF that(2,3)] checkGrounded_frame)
  have e: "JUMP_CHARGE_COST \<le> jumpCharge (handleJumpCharge dt s)"
    if "JUMP_CHARGE_COST \<le> jumpCharge s + JUMP_CHARGE_RATE * dt"
    using that unfolding a by simp
  show ?thesis using a b c d e by blast
qed

lemma risingScene_fields:
  "isGameOver (risingScene c) = False" "jumpCharge (risingScene c) = c"
  "isSliding (risingScene c) = False" "isChargingJump (risingScene c) = False"
  "lastGroundedTime (risingScene c) = 1000" "jumpHoldStartTime (risingScene c) = None"
  "jumpBufferTime (risingScene c) = 0" "chargeJumpTime (risingScene c) = 0"
  "player (risingScene c) = \<lparr>px = 150, py = 200, vx = 0, vy = - 100, isGrounded = False,
      canDoubleJump = False, targetRotation = 0, isRotating = False, angle = 0, displayHeight = 13\<rparr>"
  by (simp_all add: risingScene_def runningScene_def restart_reset_def create_start_def createPlayer_def)

theorem recharge_not_gated_witness:
  "\<not> isGameOver (risingScene (249 / 5))
   \<and> \<not> isGrounded (player (risingScene (249 / 5)))
   \<and> jumpCharge (risingScene (249 / 5)) < JUMP_CHARGE_COST
   \<and> jumpCharge (update (keyTick 1200 16 False False False) (risingScene (249 / 5))) = 251 / 5
   \<and> JUMP_CHARGE_COST \<le> jumpCharge (handleJumpCharge (2 / 125) (risingScene (249 / 5)))"
  using recharge_not_gated[of "2 / 125" "risingScene (249 / 5)" False "keyTick 1200 16 False False False"]
  by (simp add: risingScene_fields)

subsection \<open>Concrete scenes, field by field\<close>

lemma groundedScene_fields:
  "isGameOver (groundedScene c) = False" "jumpCharge (groundedScene c) = c"
  "isSliding (groundedScene c) = False" "isChargingJump (groundedScene c) = False"
  "lastGroundedTime (groundedScene c) = 1000" "jumpHoldStartTime (groundedScene c) = None"
  "jumpBufferTime (groundedScene c) = 0" "chargeJumpTime (groundedScene c) = 0"
  "greenObstacles (groundedScene c) = []"
  "player (groundedScene c) = \<lparr>px = 150, py = 531 / 2, vx = 0, vy = 0, isGrounded = True,
      canDoubleJump = False, targetRotation = 0, isRotating = False, angle = 0, displayHeight = 13\<rparr>"
  by (simp_all add: groundedScene_def runningScene_def restart_reset_def create_start_def createPlayer_def)

lemma fallingScene_fields:
  "jumpCharge fallingScene = 60"
  "player fallingScene = \<lparr>px = 150, py = 200, vx = 0, vy = 200, isGrounded = False,
      canDoubleJump = True, targetRotation = 0, isRotating = False, angle = 0, displayHeight = 13\<rparr>"
  by (simp_all add: fallingScene_def runningScene_def restart_reset_def create_start_def createPlayer_def)

lemma trackingScene_fields:
  "isGameOver trackingScene = False" "jumpCharge trackingScene = 100"
  "isSliding trackingScene = False" "isChargingJump trackingScene = False"
  "lastGroundedTime trackingScene = 1000" "jumpHoldStartTime trackingScene = Some 1000"
  "jumpBufferTime trackingScene = 0" "chargeJumpTime trackingScene = 0"
  "player trackingScene = player (groundedScene 100)"
  by (simp_all add: trackingScene_def groundedScene_fields)

lemma chargingScene_fields:
  "isGameOver (chargingScene t) = False" "jumpCharge (chargingScene t) = 100"
  "isSliding (chargingScene t) = False" "isChargingJump (chargingScene t) = True"
  "lastGroundedTime (chargingScene t) = 1000" "jumpHoldStartTime (chargingScene t) = None"
  "jumpBufferTime (chargingScene t) = 0" "chargeJumpTime (chargingScene t) = t"
  "greenObstacles (chargingScene t) = []"
  "player (chargingScene t) = player (groundedScene 100)"
  by (simp_all add: chargingScene_def groundedScene_fields)

lemmas scene_fields =
  groundedScene_fields risingScene_fields fallingScene_fields trackingScene_fields
  chargingScene_fields

subsection \<open>Claim C4\<close>

text \<open>
  C4. In \<^verbatim>\<open>part_000\<close> the jump charge stays within \<open>[0, JUMP_CHARGE_MAX]\<close>: a session
  starts at the maximum, and \<open>handleJump\<close> and a whole frame of \<open>update\<close> (whose duration
  is not negative) keep it in that range. A free ground jump (at once below full charge,
  or the quick release at full charge) leaves it unchanged, a double jump lowers it by
  exactly \<open>JUMP_CHARGE_COST\<close>, and a charge-jump launch with charge time above 0 sets it
  to exactly 0.
\<close>

theorem charge_conservation:
  assumes "0 \<le> jumpCharge s" and "jumpCharge s \<le> JUMP_CHARGE_MAX" and "0 \<le> delta i"
  shows "jumpCharge (create saved ds) = JUMP_CHARGE_MAX
     \<and> 0 \<le> jumpCharge (handleJump i s) \<and> jumpCharge (handleJump i s) \<le> JUMP_CHARGE_MAX
     \<and> 0 \<le> jumpCharge (update i s) \<and> jumpCharge (update i s) \<le> JUMP_CHARGE_MAX
     \<and> (jumpPath i s = FreeJump \<or> jumpPath i s = TapRelease \<longrightarrow>
          jumpCharge (handleJump i s) = jumpCharge s)
     \<and> (jumpPath i s = DoubleJump \<longrightarrow>
          jumpCharge (handleJump i s) = jumpCharge s - JUMP_CHARGE_COST)
     \<and> (jumpPath i s = ChargeLaunch \<and> chargeJumpTime s > 0 \<longrightarrow>
          jumpCharge (handleJump i s) = 0)"
proof -
  have free: "jumpCharge (handleJump i s) = jumpCharge s"
    if "jumpPath i s = FreeJump \<or> jumpPath i s = TapRelease"
    using that by (auto simp: handleJump_charge)
  have double: "jumpCharge (handleJump i s) = jumpCharge s - JUMP_CHARGE_COST"
    if "jumpPath i s = DoubleJump"
    using that by (simp add: handleJump_charge)
  have launch: "jumpCharge (handleJump i s) = 0"
    if "jumpPath i s = ChargeLaunch" "chargeJumpTime s > 0"
    using that by (simp add: handleJump_charge)
  show ?thesis
    using create_charge[of saved ds] handleJump_charge_bounds[OF assms(1,2), of i]
      update_charge_bounds[OF assms] free double launch
    by blast
qed

theorem charge_conservation_witness:
  "jumpPath (keyTick 1500 16 True False True) (groundedScene 60) = FreeJump
   \<and> jumpCharge (handleJump (keyTick 1500 16 True False True) (groundedScene 60)) = 60
   \<and> jumpPath (keyTick 1150 16 True False True) (risingScene 60) = DoubleJump
   \<and> jumpCharge (handleJump (keyTick 1150 16 True False True) (risingScene 60)) = 10
   \<and> jumpPath (keyTick 1200 20 False True False) (chargingScene (1 / 50)) = ChargeLaunch
   \<and> jumpCharge (handleJump (keyTick 1200 20 False True False) (chargingScene (1 / 50))) = 0
   \<and> 0 \<le> jumpCharge (update (keyTick 1150 16 True False True) (risingScene 60))
   \<and> jumpCharge (update (keyTick 1150 16 True False True) (risingScene 60)) \<le> JUMP_CHARGE_MAX"
proof -
  have p1: "jumpPath (keyTick 1500 16 True False True) (groundedScene 60) = FreeJump"
    by (simp add: jumpPath_def bufferJump_def Let_def scene_fields)
  have p2: "jumpPath (keyTick 1150 16 True False True) (risingScene 60) = DoubleJump"
    by (simp add: jumpPath_def bufferJump_def Let_def scene_fields)
  have p3: "jumpPath (keyTick 1200 20 False True False) (chargingScene (1 / 50)) = ChargeLaunch"
    by (simp add: jumpPath_def bufferJump_def Let_def scene_fields)
  show ?thesis
    using p1 p2 p3
      charge_conservation[of "groundedScene 60" "keyTick 1500 16 True False True" None someDraws]
      charge_conservation[of "risingScene 60" "keyTick 1150 16 True False True" None someDraws]
      charge_conservation[of "chargingScene (1 / 50)" "keyTick 1200 20 False True False" None someDraws]
    by (simp add: scene_fields)
qed

subsection \<open>Claim C7\<close>

lemma never_sliding:
  "\<not> isSliding (create saved ds)"
  "\<not> isSliding s \<Longrightarrow> \<not> isSliding (update i s)"
proof -
  show "\<not> isSliding (create saved ds)"
    by (simp add: create_def generateInitialColumns_frame create_start_def)
  show "\<not> isSliding (update i s)" if "\<not> isSliding s"
    using that
    by (simp add: update_def Let_def restartGame_def generateInitialColumns_frame restart_reset_def
          triggerGameOver_frame scrollWorld_frame handleJumpCharge_frame handleRotation_frame
          handleJump_isSliding checkGrounded_frame)
qed

lemma jumpPath_A_guards:
  "(jumpPath_A i s = GroundJump_A) = (justDown i \<and> isGrounded (player s))"
  "(jumpPath_A i s = DoubleJump_A) =
     (justDown i \<and> \<not> isGrounded (player s) \<and> canDoubleJump (player s)
      \<and> jumpCharge s \<ge> JUMP_CHARGE_COST)"
  by (simp_all add: jumpPath_A_def)

lemma handleJump_A_flag:
  "canDoubleJump (player (handleJump_A i s)) =
     (case jumpPath_A i s of GroundJump_A \<Rightarrow> True | DoubleJump_A \<Rightarrow> False
      | NoJump_A \<Rightarrow> canDoubleJump (player s))"
  by (simp add: handleJump_A_def split: jumpPath_A.splits)

lemma checkGrounded_A_flag:
  "canDoubleJump (player (checkGrounded_A s)) =
     (canDoubleJump (player s)
      \<and> \<not> (\<not> isGrounded (player s) \<and> isGrounded (player (checkGrounded_A s))))"
  by (auto simp: checkGrounded_A_def Let_def case_prod_beta triggerGameOver_def)

lemma landingScene_A_fields:
  "player landingScene_A = \<lparr>px = 150, py = 266, vx = 0, vy = 200, isGrounded = False,
      canDoubleJump = True, targetRotation = 0, isRotating = False, angle = 0, displayHeight = 13\<rparr>"
  "greenObstacles landingScene_A = [\<lparr>ox = 145, oy = 287, active = True\<rparr>, \<lparr>ox = 145, oy = 272, active = True\<rparr>]"
  by (simp_all add: landingScene_A_def fallingScene_fields)

lemma landing_checkGrounded_A:
  "player (checkGrounded_A landingScene_A)
   = \<lparr>px = 150, py = 531 / 2, vx = 0, vy = 0, isGrounded = True,
      canDoubleJump = False, targetRotation = 0, isRotating = True, angle = 0, displayHeight = 13\<rparr>"
  by (simp add: checkGrounded_A_def checkObstacle_A_def Let_def landingScene_A_fields)

text \<open>
  C7, as amended. In \<^verbatim>\<open>part_000\<close>, where \<open>isSliding\<close> is never set, a double jump fires
  exactly when the key was just pressed, the player is not grounded and has been off the
  ground for more than 100 ms, it moves up, no charge jump is being charged and the charge
  is at least \<open>JUMP_CHARGE_COST\<close>; it sets \<open>vy\<close> to \<open>JUMP_VELOCITY\<close>, \<open>vx\<close> to 0 and
  lowers the charge by the cost. In \<^verbatim>\<open>game.js\<close> it fires exactly when the key was just
  pressed, the player is not grounded, \<open>canDoubleJump\<close> is set and the charge is at least
  the cost, whichever way the player moves; it sets \<open>vy\<close>, lowers the charge by the cost,
  leaves \<open>vx\<close> alone and clears \<open>canDoubleJump\<close>. There \<open>handleJump\<close> sets
  \<open>canDoubleJump\<close> on a ground jump (a press while grounded) and changes nothing when no
  jump fires, and \<open>checkGrounded\<close> clears the flag exactly when the player lands (not
  grounded before, grounded after) and otherwise leaves it.
\<close>

theorem double_jump_rule:
  assumes "\<not> isSliding s"
  shows "(jumpPath i s = DoubleJump) =
           (justDown i \<and> \<not> isGrounded (player s) \<and> now i - lastGroundedTime s > 100
            \<and> vy (player s) < 0 \<and> \<not> isChargingJump s \<and> jumpCharge s \<ge> JUMP_CHARGE_COST)
     \<and> (jumpPath i s = DoubleJump \<longrightarrow>
           vy (player (handleJump i s)) = JUMP_VELOCITY
         \<and> vx (player (handleJump i s)) = 0
         \<and> jumpCharge (handleJump i s) = jumpCharge s - JUMP_CHARGE_COST)
     \<and> (jumpPath_A i t = DoubleJump_A) =
           (justDown i \<and> \<not> isGrounded (player t) \<and> canDoubleJump (player t)
            \<and> jumpCharge t \<ge> JUMP_CHARGE_COST)
     \<and> (jumpPath_A i t = DoubleJump_A \<longrightarrow>
           vy (player (handleJump_A i t)) = JUMP_VELOCITY
         \<and> vx (player (handleJump_A i t)) = vx (player t)
         \<and> jumpCharge (handleJump_A i t) = jumpCharge t - JUMP_CHARGE_COST
         \<and> \<not> canDoubleJump (player (handleJump_A i t)))
     \<and> (jumpPath_A i t = GroundJump_A) = (justDown i \<and> isGrounded (player t))
     \<and> (jumpPath_A i t = GroundJump_A \<longrightarrow> canDoubleJump (player (handleJump_A i t)))
     \<and> (jumpPath_A i t = NoJump_A \<longrightarrow> handleJump_A i t = t)
     \<and> canDoubleJump (player (checkGrounded_A t)) =
           (canDoubleJump (player t)
            \<and> \<not> (\<not> isGrounded (player t) \<and> isGrounded (player (checkGrounded_A t))))"
proof -
  have eff: "vy (player (handleJump i s)) = JUMP_VELOCITY
         \<and> vx (player (handleJump i s)) = 0
         \<and> jumpCharge (handleJump i s) = jumpCharge s - JUMP_CHARGE_COST"
    if "jumpPath i s = DoubleJump"
    using that by (simp add: handleJump_vy handleJump_vx handleJump_charge)
  have eff_A: "vy (player (handleJump_A i t)) = JUMP_VELOCITY
         \<and> vx (player (handleJump_A i t)) = vx (player t)
         \<and> jumpCharge (handleJump_A i t) = jumpCharge t - JUMP_CHARGE_COST
         \<and> \<not> canDoubleJump (player (handleJump_A i t))"
    if "jumpPath_A i t = DoubleJump_A"
    using that by (simp add: handleJump_A_def)
  have gr_A: "canDoubleJump (player (handleJump_A i t))" if "jumpPath_A i t = GroundJump_A"
    using that by (simp add: handleJump_A_flag)
  have no_A: "handleJump_A i t = t" if "jumpPath_A i t = NoJump_A"
    using that by (simp add: handleJump_A_def)
  show ?thesis
    using doubleJump_guard[OF assms, of i] jumpPath_A_guards[of i t] eff eff_A gr_A no_A
      checkGrounded_A_flag[of t]
    by blast
qed

theorem double_jump_rule_witness:
  "\<not> isSliding (risingScene 60)
   \<and> jumpPath (keyTick 1150 16 True False True) (risingScene 60) = DoubleJump
   \<and> vy (player (handleJump (keyTick 1150 16 True False True) (risingScene 60))) = JUMP_VELOCITY
   \<and> vx (player (handleJump (keyTick 1150 16 True False True) (risingScene 60))) = 0
   \<and> jumpCharge (handleJump (keyTick 1150 16 True False True) (risingScene 60)) = 10
   \<and> jumpPath_A (keyTick 1150 16 True False True) fallingScene = DoubleJump_A
   \<and> vy (player (handleJump_A (keyTick 1150 16 True False True) fallingScene)) = JUMP_VELOCITY
   \<and> jumpCharge (handleJump_A (keyTick 1150 16 True False True) fallingScene) = 10
   \<and> \<not> canDoubleJump (player (handleJump_A (keyTick 1150 16 True False True) fallingScene))
   \<and> jumpPath_A (keyTick 1000 16 True False True) (groundedScene 45) = GroundJump_A
   \<and> canDoubleJump (player (handleJump_A (keyTick 1000 16 True False True) (groundedScene 45)))
   \<and> jumpPath_A (keyTick 1150 16 False False False) fallingScene = NoJump_A
   \<and> handleJump_A (keyTick 1150 16 False False False) fallingScene = fallingScene
   \<and> canDoubleJump (player landingScene_A) \<and> \<not> isGrounded (player landingScene_A)
   \<and> isGrounded (player (checkGrounded_A landingScene_A))
   \<and> \<not> canDoubleJump (player (checkGrounded_A landingScene_A))"
proof -
  have quiet: "jumpPath_A (keyTick 1150 16 False False False) fallingScene = NoJump_A"
    by (simp add: jumpPath_A_def)
  show ?thesis
    using quiet
      double_jump_rule[of "risingScene 60" "keyTick 1150 16 True False True" fallingScene]
      double_jump_rule[of "risingScene 60" "keyTick 1000 16 True False True" "groundedScene 45"]
      double_jump_rule[of "risingScene 60" "keyTick 1150 16 False False False" fallingScene]
      double_jump_rule[of "risingScene 60" "keyTick 1150 16 True False True" landingScene_A]
      landing_checkGrounded_A
    by (simp add: scene_fields landingScene_A_fields)
qed

text \<open>
  The claim as stated fails on \<^verbatim>\<open>game.js\<close>: a player who left the ground by a ground
  jump at time 1000 (charge 45) and 0.6 s later is falling (\<open>vy = 200\<close>, not moving up,
  charge 60) gets a double jump on a press, which sets \<open>vy\<close> to \<open>JUMP_VELOCITY\<close> and
  takes the charge from 60 to 10.
\<close>

theorem double_jump_counterexample:
  "player fallingScene
     = (player (handleJump_A (keyTick 1000 16 True False True) (groundedScene 45)))
         \<lparr>py := 200, vy := 200\<rparr>
   \<and> \<not> isGrounded (player fallingScene)
   \<and> \<not> vy (player fallingScene) < 0
   \<and> jumpPath_A (keyTick 1600 16 True False True) fallingScene = DoubleJump_A
   \<and> vy (player (handleJump_A (keyTick 1600 16 True False True) fallingScene)) = JUMP_VELOCITY
   \<and> jumpCharge (handleJump_A (keyTick 1600 16 True False True) fallingScene) = 10"
  by (simp add: jumpPath_A_def handleJump_A_def scene_fields)

subsection \<open>Claim C2\<close>

lemma hold_paths:
  assumes "\<not> isSliding s"
  shows "\<not> isChargingJump s \<Longrightarrow> isGrounded (player s) \<Longrightarrow> jumpCharge s = JUMP_CHARGE_MAX
         \<Longrightarrow> justDown i \<Longrightarrow> jumpPath i s = HoldTracking"
    and "\<not> isChargingJump s \<Longrightarrow> isGrounded (player s) \<Longrightarrow> \<not> justDown i \<Longrightarrow> isDown i
         \<Longrightarrow> jumpBufferWindow \<le> now i - jumpBufferTime s \<Longrightarrow> jumpHoldStartTime s = Some t0
         \<Longrightarrow> (jumpPath i s = ChargeStart) = (now i - t0 \<ge> 150)"
    and "isChargingJump s \<Longrightarrow> isDown i \<Longrightarrow> isGrounded (player s) \<Longrightarrow> jumpPath i s = ChargeSquash"
    and "isChargingJump s \<Longrightarrow> justUp i \<Longrightarrow> \<not> isDown i \<Longrightarrow> jumpPath i s = ChargeLaunch"
  using assms by (auto simp: jumpPath_def bufferJump_def Let_def)

lemma chargeRatio_bounds: "0 \<le> chargeJumpTime s \<Longrightarrow> 0 \<le> chargeRatio s \<and> chargeRatio s \<le> 1"
  by (simp add: chargeRatio_def)

text \<open>
  C2, as amended. With the player grounded at full charge a press jumps not yet: it
  starts tracking the hold. While the key stays down, charging starts in the first frame
  in which the hold has lasted 150 ms, with the charge time reset to 0; each later frame
  with the key down adds its duration, up to \<open>CHARGE_JUMP_MAX_TIME\<close>. On release the
  charge jump launches with \<open>chargeRatio = min (chargeJumpTime / 1.5) 1\<close>, the time
  charged since the threshold and not the whole hold; the launch velocity
  \<open>- 400 - 300 * chargeRatio\<close> lies between the configured maximum and minimum, and the
  charge resource is set to 0 when the charge time is above 0.
\<close>

theorem charge_jump_launch:
  assumes "\<not> isSliding s"
  shows "(\<not> isChargingJump s \<and> isGrounded (player s) \<and> jumpCharge s = JUMP_CHARGE_MAX \<and> justDown i
          \<longrightarrow> jumpPath i s = HoldTracking
            \<and> jumpHoldStartTime (handleJump i s) = Some (now i)
            \<and> player (handleJump i s) = player s
            \<and> jumpCharge (handleJump i s) = jumpCharge s)
     \<and> (\<not> isChargingJump s \<and> isGrounded (player s) \<and> \<not> justDown i \<and> isDown i
          \<and> jumpBufferWindow \<le> now i - jumpBufferTime s \<and> jumpHoldStartTime s = Some t0
          \<longrightarrow> (jumpPath i s = ChargeStart) = (now i - t0 \<ge> 150)
            \<and> (now i - t0 \<ge> 150 \<longrightarrow>
                 isChargingJump (handleJump i s) \<and> chargeJumpTime (handleJump i s) = 0))
     \<and> (isChargingJump s \<and> isDown i \<and> isGrounded (player s)
          \<longrightarrow> jumpPath i s = ChargeSquash
            \<and> chargeJumpTime (handleJump i s)
                = min CHARGE_JUMP_MAX_TIME (chargeJumpTime s + loopDelta i / 1000)
            \<and> jumpCharge (handleJump i s) = jumpCharge s)
     \<and> (isChargingJump s \<and> justUp i \<and> \<not> isDown i \<and> 0 \<le> chargeJumpTime s
          \<longrightarrow> jumpPath i s = ChargeLaunch
            \<and> chargeRatio s = min (chargeJumpTime s / CHARGE_JUMP_MAX_TIME) 1
            \<and> vy (player (handleJump i s))
                = CHARGE_JUMP_MIN_VELOCITY
                  + (CHARGE_JUMP_MAX_VELOCITY - CHARGE_JUMP_MIN_VELOCITY) * chargeRatio s
            \<and> CHARGE_JUMP_MAX_VELOCITY \<le> vy (player (handleJump i s))
            \<and> vy (player (handleJump i s)) \<le> CHARGE_JUMP_MIN_VELOCITY
            \<and> (0 < chargeJumpTime s \<longrightarrow> jumpCharge (handleJump i s) = 0)
            \<and> \<not> isChargingJump (handleJump i s))"
proof -
  have track: "jumpPath i s = HoldTracking
            \<and> jumpHoldStartTime (handleJump i s) = Some (now i)
            \<and> player (handleJump i s) = player s
            \<and> jumpCharge (handleJump i s) = jumpCharge s"
    if "\<not> isChargingJump s" "isGrounded (player s)" "jumpCharge s = JUMP_CHARGE_MAX" "justDown i"
    using hold_paths(1)[OF assms that] by (simp add: handleJump_def Let_def)
  have start: "(jumpPath i s = ChargeStart) = (now i - t0 \<ge> 150)
            \<and> (now i - t0 \<ge> 150 \<longrightarrow>
                 isChargingJump (handleJump i s) \<and> chargeJumpTime (handleJump i s) = 0)"
    if "\<not> isChargingJump s" "isGrounded (player s)" "\<not> justDown i" "isDown i"
       "jumpBufferWindow \<le> now i - jumpBufferTime s" "jumpHoldStartTime s = Some t0"
    using hold_paths(2)[OF assms that] by (auto simp: handleJump_def Let_def)
  have squash: "jumpPath i s = ChargeSquash
            \<and> chargeJumpTime (handleJump i s)
                = min CHARGE_JUMP_MAX_TIME (chargeJumpTime s + loopDelta i / 1000)
            \<and> jumpCharge (handleJump i s) = jumpCharge s"
    if "isChargingJump s" "isDown i" "isGrounded (player s)"
    using hold_paths(3)[OF assms that] by (simp add: handleJump_def Let_def min_def)
  have launch: "jumpPath i s = ChargeLaunch
            \<and> chargeRatio s = min (chargeJumpTime s / CHARGE_JUMP_MAX_TIME) 1
            \<and> vy (player (handleJump i s))
                = CHARGE_JUMP_MIN_VELOCITY
                  + (CHARGE_JUMP_MAX_VELOCITY - CHARGE_JUMP_MIN_VELOCITY) * chargeRatio s
            \<and> CHARGE_JUMP_MAX_VELOCITY \<le> vy (player (handleJump i s))
            \<and> vy (player (handleJump i s)) \<le> CHARGE_JUMP_MIN_VELOCITY
            \<and> (0 < chargeJumpTime s \<longrightarrow> jumpCharge (handleJump i s) = 0)
            \<and> \<not> isChargingJump (handleJump i s)"
    if "isChargingJump s" "justUp i" "\<not> isDown i" "0 \<le> chargeJumpTime s"
  proof -
    have p: "jumpPath i s = ChargeLaunch" by (rule hold_paths(4)[OF assms that(1,2,3)])
    have r: "0 \<le> chargeRatio s" "chargeRatio s \<le> 1"
      using chargeRatio_bounds[OF that(4)] by simp_all
    have v: "vy (player (handleJump i s)) = - 400 - 300 * chargeRatio s"
      using p by (simp add: handleJump_vy)
    have c: "\<not> isChargingJump (handleJump i s)"
      using p by (simp add: handleJump_def Let_def)
    show ?thesis using p r v c
      by (simp add: handleJump_charge) (simp add: chargeRatio_def)
  qed
  show ?thesis using track start squash launch by blast
qed

theorem charge_jump_launch_witness:
  "jumpPath (keyTick 1000 20 True False True) (groundedScene 100) = HoldTracking
   \<and> jumpHoldStartTime (handleJump (keyTick 1000 20 True False True) (groundedScene 100)) = Some 1000
   \<and> jumpPath (keyTick 1140 20 False False True) trackingScene = NoJump
   \<and> jumpPath (keyTick 1160 20 False False True) trackingScene = ChargeStart
   \<and> chargeJumpTime (handleJump (keyTick 1160 20 False False True) trackingScene) = 0
   \<and> chargeJumpTime (handleJump (keyTick 1180 20 False False True) (chargingScene 0)) = 1 / 50
   \<and> jumpPath (keyTick 1200 20 False True False) (chargingScene (1 / 50)) = ChargeLaunch
   \<and> chargeRatio (chargingScene (1 / 50)) = 1 / 75
   \<and> vy (player (handleJump (keyTick 1200 20 False True False) (chargingScene (1 / 50)))) = - 404
   \<and> jumpCharge (handleJump (keyTick 1200 20 False True False) (chargingScene (1 / 50))) = 0"
proof -
  have quiet: "jumpPath (keyTick 1140 20 False False True) trackingScene = NoJump"
    by (simp add: jumpPath_def bufferJump_def Let_def scene_fields)
  show ?thesis
    using quiet
      charge_jump_launch[of "groundedScene 100" "keyTick 1000 20 True False True" 0]
      charge_jump_launch[of trackingScene "keyTick 1160 20 False False True" 1000]
      charge_jump_launch[of "chargingScene 0" "keyTick 1180 20 False False True" 0]
      charge_jump_launch[of "chargingScene (1 / 50)" "keyTick 1200 20 False True False" 0]
    by (simp add: scene_fields)
qed

text \<open>
  The claim as stated fails: with the key pressed at time 1000, held and released at time
  1200, at a frame every 20 ms, charging starts in the frame at 1160 and only the frame at
  1180 adds to the charge time, so the launch uses \<open>chargeRatio = 0.02 / 1.5 = 1 / 75\<close>
  and not \<open>0.2 / 1.5 = 2 / 15\<close>, and the launch velocity is -404 and not -440.
\<close>

theorem charge_jump_counterexample:
  "chargeRatio (handleJumps (butlast holdFrames) (groundedScene 100)) = 1 / 75
   \<and> min ((1 / 5) / CHARGE_JUMP_MAX_TIME) 1 = (2 / 15 :: rat)
   \<and> vy (player (handleJumps holdFrames (groundedScene 100))) = - 404
   \<and> CHARGE_JUMP_MIN_VELOCITY
       + (CHARGE_JUMP_MAX_VELOCITY - CHARGE_JUMP_MIN_VELOCITY) * (2 / 15) = - 440
   \<and> jumpCharge (handleJumps holdFrames (groundedScene 100)) = 0"
  by (simp add: handleJumps_def holdFrames_def handleJump_def jumpPath_def bufferJump_def Let_def
        groundedScene_fields chargeRatio_def regularJump_def)

subsection \<open>Claim C9\<close>

lemma checkObstacle_vx:
  "vx (fst (checkObstacle b ob acc)) = vx (fst acc) \<or> vx (fst (checkObstacle b ob acc)) = 0"
  by (cases b; cases acc) (simp add: checkObstacle_def Let_def)

lemma checkObstacles_vx:
  "vx (fst (foldl (\<lambda>acc ob. checkObstacle b ob acc) acc obs)) = vx (fst acc)
   \<or> vx (fst (foldl (\<lambda>acc ob. checkObstacle b ob acc) acc obs)) = 0"
proof (induction obs arbitrary: acc)
  case Nil
  then show ?case by simp
next
  case (Cons ob obs)
  show ?case using Cons.IH[of "checkObstacle b ob acc"] checkObstacle_vx[of b ob acc] by auto
qed

lemma checkGrounded_vx:
  "vx (player (checkGrounded i s)) = vx (player s) \<or> vx (player (checkGrounded i s)) = 0"
  using checkObstacles_vx[of "(py (player s) + TILE_SIZE / 2, px (player s) - TILE_SIZE / 2,
      px (player s) + TILE_SIZE / 2, py (player s) - TILE_SIZE / 2)"
      "(player s, False, screenHeight)" "greenObstacles s"]
  by (auto simp: checkGrounded_def Let_def case_prod_beta triggerGameOver_def)

lemma checkGrounded_chargeJumpTime: "chargeJumpTime (checkGrounded i s) = chargeJumpTime s"
  by (simp add: checkGrounded_def Let_def case_prod_beta triggerGameOver_def)

lemma checkObstacle_result:
  "checkObstacle b ob (p, st, h) = (p, True, oy ob) \<or> snd (checkObstacle b ob (p, st, h)) = (st, h)"
  by (cases b) (simp add: checkObstacle_def Let_def)

lemma checkObstacle_landing:
  "snd (checkObstacle b ob (p, st, h)) \<noteq> (st, h) \<Longrightarrow> fst (checkObstacle b ob (p, st, h)) = p"
  using checkObstacle_result[of b ob p st h] by auto

lemma update_vx:
  assumes "\<not> isGameOver s"
  shows "vx (player (update i s)) = vx (player s) \<or> vx (player (update i s)) = 0
     \<or> (jumpPath i (checkGrounded i (s\<lparr>colorWaveTime := colorWaveTime s + delta i / 1000\<rparr>))
          = ChargeLaunch
        \<and> vx (player (update i s)) = CHARGE_JUMP_HORIZONTAL_VELOCITY * chargeRatio s)"
proof -
  let ?s2 = "checkGrounded i (s\<lparr>colorWaveTime := colorWaveTime s + delta i / 1000\<rparr>)"
  have g: "vx (player ?s2) = vx (player s) \<or> vx (player ?s2) = 0"
    using checkGrounded_vx[of i "s\<lparr>colorWaveTime := colorWaveTime s + delta i / 1000\<rparr>"] by simp
  have r: "chargeRatio ?s2 = chargeRatio s"
    by (simp add: chargeRatio_def checkGrounded_chargeJumpTime)
  have u: "vx (player (update i s)) = vx (player (handleJump i ?s2)) \<or> vx (player (update i s)) = 0"
    by (simp add: update_running_player[OF assms] Let_def handleRotation_frame)
  show ?thesis
  proof (cases "jumpPath i ?s2 = ChargeLaunch")
    case True
    then show ?thesis using u r by (auto simp: handleJump_vx)
  next
    case False
    then have "vx (player (handleJump i ?s2)) = vx (player ?s2) \<or> vx (player (handleJump i ?s2)) = 0"
      by (simp add: handleJump_vx split: jumpPath.splits)
    then show ?thesis using u g by auto
  qed
qed

lemma checkObstacle_push:
  assumes "(px p = x0 \<and> vx p = v0) \<or> (px p \<noteq> x0 \<and> vx p = 0)"
  shows "(px (fst (checkObstacle (pb, x0 - TILE_SIZE / 2, x0 + TILE_SIZE / 2, pt) ob (p, st, h))) = x0
          \<and> vx (fst (checkObstacle (pb, x0 - TILE_SIZE / 2, x0 + TILE_SIZE / 2, pt) ob (p, st, h))) = v0)
       \<or> (px (fst (checkObstacle (pb, x0 - TILE_SIZE / 2, x0 + TILE_SIZE / 2, pt) ob (p, st, h))) \<noteq> x0
          \<and> vx (fst (checkObstacle (pb, x0 - TILE_SIZE / 2, x0 + TILE_SIZE / 2, pt) ob (p, st, h))) = 0)"
  using assms by (auto simp: checkObstacle_def Let_def)

lemma checkObstacle_height:
  "(checkObstacle b ob (p, st, h) = (p, True, oy ob) \<and> oy ob < h) \<or> snd (checkObstacle b ob (p, st, h)) = (st, h)"
  by (cases b) (simp add: checkObstacle_def Let_def)

lemma checkObstacles_push:
  assumes "(px (fst acc) = x0 \<and> vx (fst acc) = v0) \<or> (px (fst acc) \<noteq> x0 \<and> vx (fst acc) = 0)"
  shows "(px (fst (foldl (\<lambda>acc ob. checkObstacle (pb, x0 - TILE_SIZE / 2, x0 + TILE_SIZE / 2, pt) ob acc) acc obs)) = x0
          \<and> vx (fst (foldl (\<lambda>acc ob. checkObstacle (pb, x0 - TILE_SIZE / 2, x0 + TILE_SIZE / 2, pt) ob acc) acc obs)) = v0)
       \<or> (px (fst (foldl (\<lambda>acc ob. checkObstacle (pb, x0 - TILE_SIZE / 2, x0 + TILE_SIZE / 2, pt) ob acc) acc obs)) \<noteq> x0
          \<and> vx (fst (foldl (\<lambda>acc ob. checkObstacle (pb, x0 - TILE_SIZE / 2, x0 + TILE_SIZE / 2, pt) ob acc) acc obs)) = 0)"
  using assms
proof (induction obs arbitrary: acc)
  case Nil
  then show ?case by simp
next
  case (Cons ob obs)
  obtain p st h where acc: "acc = (p, st, h)" by (cases acc) auto
  have "(px (fst (checkObstacle (pb, x0 - TILE_SIZE / 2, x0 + TILE_SIZE / 2, pt) ob acc)) = x0
          \<and> vx (fst (checkObstacle (pb, x0 - TILE_SIZE / 2, x0 + TILE_SIZE / 2, pt) ob acc)) = v0)
       \<or> (px (fst (checkObstacle (pb, x0 - TILE_SIZE / 2, x0 + TILE_SIZE / 2, pt) ob acc)) \<noteq> x0
          \<and> vx (fst (checkObstacle (pb, x0 - TILE_SIZE / 2, x0 + TILE_SIZE / 2, pt) ob acc)) = 0)"
    unfolding acc using Cons.prems checkObstacle_push[of p x0 v0 pb pt ob st h] by (simp add: acc)
  from Cons.IH[OF this] show ?case by simp
qed

lemma checkObstacles_height:
  "snd (snd acc) \<le> H \<Longrightarrow>
   snd (snd (foldl (\<lambda>acc ob. checkObstacle b ob acc) acc obs)) \<le> H"
proof (induction obs arbitrary: acc)
  case Nil
  then show ?case by simp
next
  case (Cons ob obs)
  obtain p st h where acc: "acc = (p, st, h)" by (cases acc) auto
  have "snd (snd (checkObstacle b ob acc)) \<le> H"
    using Cons.prems checkObstacle_height[of b ob p st h] unfolding acc by auto
  from Cons.IH[OF this] show ?case by simp
qed

lemma checkGrounded_px_vx:
  "vx (player (checkGrounded i s)) =
     (if px (player (checkGrounded i s)) \<noteq> px (player s)
         \<or> py (player (checkGrounded i s)) > screenHeight + 50
      then 0 else vx (player s))"
  using checkObstacles_push[of "(player s, False, screenHeight)" "px (player s)" "vx (player s)"
      "py (player s) + TILE_SIZE / 2" "py (player s) - TILE_SIZE / 2" "greenObstacles s"]
  by (auto simp: checkGrounded_def Let_def case_prod_beta triggerGameOver_def)

lemma checkGrounded_landed_py:
  "isGrounded (player (checkGrounded i s)) \<Longrightarrow> py (player (checkGrounded i s)) \<le> screenHeight - TILE_SIZE / 2"
  using checkObstacles_height[of "(player s, False, screenHeight)" screenHeight
      "(py (player s) + TILE_SIZE / 2, px (player s) - TILE_SIZE / 2,
        px (player s) + TILE_SIZE / 2, py (player s) - TILE_SIZE / 2)" "greenObstacles s"]
  by (auto simp: checkGrounded_def Let_def case_prod_beta triggerGameOver_def split: if_splits)

lemma handleJump_position:
  "px (player (handleJump i s)) = px (player s)"
  "py (player (handleJump i s)) = py (player s)"
  by (simp_all add: handleJump_def Let_def regularJump_def split: jumpPath.splits)

lemma handleJump_isGrounded:
  "isGrounded (player (handleJump i s)) =
     (case jumpPath i s of
        ChargeLaunch \<Rightarrow> False
      | FreeJump \<Rightarrow> False
      | TapRelease \<Rightarrow> (if isGrounded (player s) \<or> now i - lastGroundedTime s \<le> 100
                       then False else isGrounded (player s))
      | _ \<Rightarrow> isGrounded (player s))"
  by (simp add: handleJump_def Let_def regularJump_def split: jumpPath.splits)

lemma doubleJump_in_air: "jumpPath i s = DoubleJump \<Longrightarrow> \<not> isGrounded (player s)"
  by (auto simp: jumpPath_def Let_def split: option.splits if_splits)

lemma handleJump_grounded_vx:
  assumes "isGrounded (player (handleJump i s))"
  shows "vx (player (handleJump i s)) = vx (player s) \<and> isGrounded (player s)"
  using assms doubleJump_in_air[of i s]
  by (auto simp: handleJump_isGrounded handleJump_vx split: jumpPath.splits if_splits)

lemma update_running_vx:
  assumes "\<not> isGameOver s"
  shows "vx (player (update i s)) =
     (if py (player (update i s)) > screenHeight + 50 then 0
      else vx (player (handleJump i
             (checkGrounded i (s\<lparr>colorWaveTime := colorWaveTime s + delta i / 1000\<rparr>)))))"
  by (simp add: update_running_player[OF assms] Let_def handleRotation_frame handleRotation_player)

lemma update_landing_vx:
  assumes "\<not> isGameOver s" "\<not> isGrounded (player s)" "isGrounded (player (update i s))"
    "px (player (update i s)) = px (player s)"
  shows "vx (player (update i s)) = vx (player s)"
proof -
  let ?s2 = "checkGrounded i (s\<lparr>colorWaveTime := colorWaveTime s + delta i / 1000\<rparr>)"
  let ?s3 = "handleJump i ?s2"
  have p: "px (player (update i s)) = px (player ?s3)" "py (player (update i s)) = py (player ?s3)"
    "isGrounded (player (update i s)) = isGrounded (player ?s3)"
    by (simp_all add: update_running_player[OF assms(1)] Let_def handleRotation_player)
  have g3: "isGrounded (player ?s3)" using assms(3) p by simp
  from handleJump_grounded_vx[OF g3]
  have v3: "vx (player ?s3) = vx (player ?s2)" and g2: "isGrounded (player ?s2)" by simp_all
  have y2: "py (player ?s2) \<le> screenHeight - TILE_SIZE / 2" by (rule checkGrounded_landed_py[OF g2])
  have x2: "px (player ?s2) = px (player s)" using assms(4) p by (simp add: handleJump_position)
  have v2: "vx (player ?s2) = vx (player s)"
    using checkGrounded_px_vx[of i "s\<lparr>colorWaveTime := colorWaveTime s + delta i / 1000\<rparr>"] x2 y2
    by simp
  have "\<not> py (player (update i s)) > screenHeight + 50"
    using y2 p by (simp add: handleJump_position)
  then show ?thesis using update_running_vx[OF assms(1), of i] v3 v2 by simp
qed

lemma landedScene_fields:
  "isGameOver landedScene = False"
  "player landedScene = \<lparr>px = 150, py = 531 / 2, vx = 20, vy = 0, isGrounded = True,
      canDoubleJump = False, targetRotation = 0, isRotating = False, angle = 0, displayHeight = 13\<rparr>"
  "isSliding landedScene = False" "isChargingJump landedScene = False"
  "jumpHoldStartTime landedScene = None" "jumpBufferTime landedScene = 0"
  "lastGroundedTime landedScene = 5000" "jumpCharge landedScene = 139 / 10"
  by (simp_all add: landedScene_def landingScene_fields)

lemma sideScene_fields:
  "isGameOver sideScene = False"
  "player sideScene = \<lparr>px = 150, py = 265, vx = 20, vy = - 100, isGrounded = False,
      canDoubleJump = False, targetRotation = 0, isRotating = False, angle = 0, displayHeight = 13\<rparr>"
  "greenObstacles sideScene = [\<lparr>ox = 155, oy = 287, active = True\<rparr>,
      \<lparr>ox = 155, oy = 272, active = True\<rparr>, \<lparr>ox = 155, oy = 257, active = True\<rparr>]"
  by (simp_all add: sideScene_def runningScene_def restart_reset_def create_start_def createPlayer_def)

lemma side_checkGrounded:
  "player (checkGrounded (keyTick 5000 16 False False False) sideScene)
   = \<lparr>px = 297 / 2, py = 265, vx = 0, vy = - 100, isGrounded = False,
      canDoubleJump = False, targetRotation = 0, isRotating = False, angle = 0, displayHeight = 13\<rparr>"
  by (simp add: checkGrounded_def checkObstacle_def Let_def sideScene_fields)

lemma landing_update_player:
  "player (update (keyTick 5000 16 False False False) landingScene) = player landedScene"
proof -
  have run: "\<not> isGameOver landingScene" by (simp add: landingScene_fields)
  have p: "player (update (keyTick 5000 16 False False False) landingScene)
      = (let p = player (handleRotation (delta (keyTick 5000 16 False False False) / 1000)
               (checkGrounded (keyTick 5000 16 False False False)
                 (landingScene\<lparr>colorWaveTime := colorWaveTime landingScene
                    + delta (keyTick 5000 16 False False False) / 1000\<rparr>)))
         in if py p > screenHeight + 50 then p\<lparr>vx := 0, vy := 0\<rparr> else p)"
    by (simp only: update_running_player[OF run] landing_handleJump)
  show ?thesis
    unfolding p
    by (simp add: Let_def handleRotation_def landing_checkGrounded landedScene_fields
          js_rem_turns js_round_def WrapDegrees_zero floor_halves)
qed

lemma landing_update_charge:
  "jumpCharge (update (keyTick 5000 16 False False False) landingScene) = jumpCharge landedScene"
proof -
  have run: "\<not> isGameOver landingScene" by (simp add: landingScene_fields)
  show ?thesis
    by (simp add: update_running_charge[OF run] landing_handleJump checkGrounded_frame
          landingScene_fields landedScene_fields)
qed

text \<open>
  C9, as amended. In \<^verbatim>\<open>part_000\<close> the player's horizontal velocity is 0 when a session is
  created or restarted and at game over. \<open>handleJump\<close> sets it to
  \<open>CHARGE_JUMP_HORIZONTAL_VELOCITY * chargeRatio\<close> on a charge-jump launch and to 0 on a
  double jump, on a free ground jump and on a quick release from the ground or within the
  100 ms after leaving it; otherwise it leaves it. \<open>checkGrounded\<close> sets it to 0 exactly
  when an obstacle moves the player sideways or the player is more than 50 px below the
  screen, and otherwise leaves it; the pass of its loop that finds an obstacle to land on
  leaves the player as it is. A running frame of \<open>update\<close> ends with the velocity
  \<open>handleJump\<close> left, or with 0 when the player is more than 50 px below the screen: it is
  the old velocity, 0, or the boost of a launch. Landing does not reset it: a running frame in which the player
  goes from not grounded to grounded and is not moved sideways leaves the horizontal
  velocity as it was.
\<close>

theorem horizontal_velocity_changes:
  "vx (player (create saved ds)) = 0
   \<and> vx (player (restartGame ds s)) = 0
   \<and> vx (player (triggerGameOver s)) = 0
   \<and> vx (player (handleJump i s)) =
       (case jumpPath i s of
          ChargeLaunch \<Rightarrow> CHARGE_JUMP_HORIZONTAL_VELOCITY * chargeRatio s
        | DoubleJump \<Rightarrow> 0
        | FreeJump \<Rightarrow> 0
        | TapRelease \<Rightarrow> (if isGrounded (player s) \<or> now i - lastGroundedTime s \<le> 100
                         then 0 else vx (player s))
        | _ \<Rightarrow> vx (player s))
   \<and> vx (player (checkGrounded i s)) =
       (if px (player (checkGrounded i s)) \<noteq> px (player s)
           \<or> py (player (checkGrounded i s)) > screenHeight + 50
        then 0 else vx (player s))
   \<and> (snd (checkObstacle b ob (p, st, h)) \<noteq> (st, h) \<longrightarrow>
        fst (checkObstacle b ob (p, st, h)) = p)
   \<and> (\<not> isGameOver s \<longrightarrow>
        vx (player (update i s)) =
          (if py (player (update i s)) > screenHeight + 50 then 0
           else vx (player (handleJump i
                  (checkGrounded i (s\<lparr>colorWaveTime := colorWaveTime s + delta i / 1000\<rparr>))))))
   \<and> (\<not> isGameOver s \<longrightarrow>
        vx (player (update i s)) = vx (player s) \<or> vx (player (update i s)) = 0
        \<or> (jumpPath i (checkGrounded i (s\<lparr>colorWaveTime := colorWaveTime s + delta i / 1000\<rparr>))
             = ChargeLaunch
           \<and> vx (player (update i s)) = CHARGE_JUMP_HORIZONTAL_VELOCITY * chargeRatio s))
   \<and> (\<not> isGameOver s \<and> \<not> isGrounded (player s) \<and> isGrounded (player (update i s))
       \<and> px (player (update i s)) = px (player s) \<longrightarrow>
        vx (player (update i s)) = vx (player s))"
proof -
  have c: "vx (player (create saved ds)) = 0"
    by (simp add: create_def generateInitialColumns_frame create_start_def createPlayer_def)
  have r: "vx (player (restartGame ds s)) = 0"
    by (simp add: restartGame_def generateInitialColumns_frame restart_reset_def)
  show ?thesis
    using c r triggerGameOver_frame(3)[of s] handleJump_vx[of i s] checkGrounded_px_vx[of i s]
      checkObstacle_landing[of b ob p st h] update_running_vx[of s i] update_vx[of s i]
      update_landing_vx[of s i]
    by blast
qed

theorem horizontal_velocity_changes_witness:
  "\<not> isGameOver landingScene \<and> \<not> isGrounded (player landingScene)
   \<and> vx (player landingScene) = 20
   \<and> isGrounded (player (update (keyTick 5000 16 False False False) landingScene))
   \<and> px (player (update (keyTick 5000 16 False False False) landingScene)) = px (player landingScene)
   \<and> vx (player (update (keyTick 5000 16 False False False) landingScene)) = 20
   \<and> vx (player landedScene) = 20
   \<and> jumpPath (keyTick 5016 16 True False True) landedScene = FreeJump
   \<and> vx (player (handleJump (keyTick 5016 16 True False True) landedScene)) = 0
   \<and> jumpPath (keyTick 1200 20 False True False) (chargingScene (1 / 50)) = ChargeLaunch
   \<and> vx (player (handleJump (keyTick 1200 20 False True False) (chargingScene (1 / 50)))) = 2
   \<and> vx (player sideScene) = 20
   \<and> px (player (checkGrounded (keyTick 5000 16 False False False) sideScene)) \<noteq> px (player sideScene)
   \<and> vx (player (checkGrounded (keyTick 5000 16 False False False) sideScene)) = 0
   \<and> snd (checkObstacle (543 / 2, 287 / 2, 313 / 2, 517 / 2) \<lparr>ox = 145, oy = 272, active = True\<rparr>
            (player landingScene, False, 300)) = (True, 272)
   \<and> fst (checkObstacle (543 / 2, 287 / 2, 313 / 2, 517 / 2) \<lparr>ox = 145, oy = 272, active = True\<rparr>
            (player landingScene, False, 300)) = player landingScene"
proof -
  let ?b = "(543 / 2, 287 / 2, 313 / 2, 517 / 2) :: rat \<times> rat \<times> rat \<times> rat"
  let ?ob = "\<lparr>ox = 145, oy = 272, active = True\<rparr>"
  have p1: "jumpPath (keyTick 1200 20 False True False) (chargingScene (1 / 50)) = ChargeLaunch"
    by (simp add: jumpPath_def bufferJump_def Let_def scene_fields)
  have p2: "jumpPath (keyTick 5016 16 True False True) landedScene = FreeJump"
    by (simp add: jumpPath_def bufferJump_def Let_def landedScene_fields)
  have r: "chargeRatio (chargingScene (1 / 50)) = 1 / 75"
    by (simp add: chargeRatio_def scene_fields)
  have o: "snd (checkObstacle ?b ?ob (player landingScene, False, 300)) = (True, 272)"
    by (simp add: checkObstacle_def Let_def landingScene_fields)
  have l: "player (update (keyTick 5000 16 False False False) landingScene) = player landedScene"
    by (rule landing_update_player)
  have a: "vx (player (update (keyTick 5000 16 False False False) landingScene)) = 20"
    using l horizontal_velocity_changes[of None someDraws landingScene
        "keyTick 5000 16 False False False" ?b ?ob "player landingScene" False 300]
    by (simp add: landingScene_fields landedScene_fields)
  have b: "vx (player (handleJump (keyTick 5016 16 True False True) landedScene)) = 0"
    using p2 horizontal_velocity_changes[of None someDraws landedScene
        "keyTick 5016 16 True False True" ?b ?ob "player landingScene" False 300]
    by simp
  have c: "vx (player (handleJump (keyTick 1200 20 False True False) (chargingScene (1 / 50)))) = 2"
    using p1 r horizontal_velocity_changes[of None someDraws "chargingScene (1 / 50)"
        "keyTick 1200 20 False True False" ?b ?ob "player landingScene" False 300]
    by simp
  have d: "vx (player (checkGrounded (keyTick 5000 16 False False False) sideScene)) = 0"
    using side_checkGrounded horizontal_velocity_changes[of None someDraws sideScene
        "keyTick 5000 16 False False False" ?b ?ob "player landingScene" False 300]
    by (simp add: sideScene_fields)
  have e: "fst (checkObstacle ?b ?ob (player landingScene, False, 300)) = player landingScene"
    using o horizontal_velocity_changes[of None someDraws landingScene
        "keyTick 5000 16 False False False" ?b ?ob "player landingScene" False 300]
    by simp
  show ?thesis
    using a b c d e o p1 p2 l side_checkGrounded
    by (simp add: landingScene_fields landedScene_fields sideScene_fields)
qed

text \<open>
  The claim as stated fails: the player, in the air after a charge jump with a horizontal
  velocity of 20, lands on a column in this frame (not grounded before, grounded after)
  and keeps the horizontal velocity of 20.
\<close>

theorem landing_keeps_vx:
  "\<not> isGrounded (player landingScene)
   \<and> isGrounded (player (update (keyTick 5000 16 False False False) landingScene))
   \<and> vx (player (update (keyTick 5000 16 False False False) landingScene)) = 20"
proof -
  have run: "\<not> isGameOver landingScene" by (simp add: landingScene_fields)
  have p: "player (update (keyTick 5000 16 False False False) landingScene)
      = (let p = player (handleRotation (delta (keyTick 5000 16 False False False) / 1000)
               (checkGrounded (keyTick 5000 16 False False False)
                 (landingScene\<lparr>colorWaveTime := colorWaveTime landingScene
                    + delta (keyTick 5000 16 False False False) / 1000\<rparr>)))
         in if py p > screenHeight + 50 then p\<lparr>vx := 0, vy := 0\<rparr> else p)"
    by (simp only: update_running_player[OF run] landing_handleJump)
  show ?thesis
    unfolding p
    by (simp add: Let_def handleRotation_player handleRotation_frame landing_checkGrounded
          landingScene_fields)
qed

subsection \<open>Claim C3\<close>

lemma checkGrounded_gameOver:
  "isGameOver (checkGrounded i s)
   = (isGameOver s \<or> py (player (checkGrounded i s)) > screenHeight + 50)"
  by (simp add: checkGrounded_def Let_def case_prod_beta triggerGameOver_def)

text \<open>
  In \<^verbatim>\<open>part_000\<close> a running frame ends the game only when the player is below the
  screen: \<open>x\<close> plays no part.
\<close>

lemma game_over_only_by_falling:
  assumes "\<not> isGameOver s"
  shows "isGameOver (update i s) =
     (py (player (checkGrounded i (s\<lparr>colorWaveTime := colorWaveTime s + delta i / 1000\<rparr>)))
        > screenHeight + 50
      \<or> py (player (handleJump i
              (checkGrounded i (s\<lparr>colorWaveTime := colorWaveTime s + delta i / 1000\<rparr>))))
        > screenHeight + 50)"
  using assms by (simp add: update_running_isGameOver[OF assms] checkGrounded_gameOver)

text \<open>In \<^verbatim>\<open>game.js\<close> the push that takes the player past the boundary ends the game.\<close>

lemma handleCollision_boundary:
  assumes "\<not> isGameOver s" and "px (player (handleCollision ob s)) \<noteq> px (player s)"
    and "px (player (handleCollision ob s)) < GAME_OVER_BOUNDARY"
  shows "isGameOver (handleCollision ob s)"
  using assms by (simp add: handleCollision_def Let_def triggerGameOver_def split: if_splits)

lemma pushedScene_fields:
  "isGameOver pushedScene = False"
  "player pushedScene = \<lparr>px = - 23 / 2, py = 561 / 2, vx = 0, vy = 0, isGrounded = True,
      canDoubleJump = False, targetRotation = 0, isRotating = False, angle = 0, displayHeight = 13\<rparr>"
  "greenObstacles pushedScene = [\<lparr>ox = - 22, oy = 287, active = True\<rparr>,
      \<lparr>ox = - 7, oy = 287, active = True\<rparr>, \<lparr>ox = - 7, oy = 272, active = True\<rparr>]"
  "isSliding pushedScene = False" "isChargingJump pushedScene = False"
  "jumpHoldStartTime pushedScene = None" "jumpBufferTime pushedScene = 0"
  "lastGroundedTime pushedScene = 4984" "jumpCharge pushedScene = 100"
  by (simp_all add: pushedScene_def runningScene_def restart_reset_def create_start_def createPlayer_def)

lemma pushed_checkGrounded:
  "checkGrounded (keyTick 5000 16 False False False) (pushedScene\<lparr>colorWaveTime := c\<rparr>)
   = pushedScene\<lparr>colorWaveTime := c,
       player := \<lparr>px = - 27 / 2, py = 561 / 2, vx = 0, vy = 0, isGrounded = True,
          canDoubleJump = False, targetRotation = 0, isRotating = False, angle = 0, displayHeight = 13\<rparr>,
       lastGroundedTime := 5000\<rparr>"
  by (simp add: checkGrounded_def checkObstacle_def Let_def pushedScene_fields)

lemma pushed_handleJump:
  "handleJump (keyTick 5000 16 False False False)
     (checkGrounded (keyTick 5000 16 False False False) (pushedScene\<lparr>colorWaveTime := c\<rparr>))
   = checkGrounded (keyTick 5000 16 False False False) (pushedScene\<lparr>colorWaveTime := c\<rparr>)"
proof (rule handleJump_idle)
  show "jumpPath (keyTick 5000 16 False False False)
          (checkGrounded (keyTick 5000 16 False False False) (pushedScene\<lparr>colorWaveTime := c\<rparr>)) = NoJump"
    by (simp add: pushed_checkGrounded jumpPath_def bufferJump_def Let_def pushedScene_fields)
qed simp

text \<open>
  C3 (failing input). \<^verbatim>\<open>part_000\<close> registers no overlap handler, so \<open>handleCollision\<close>
  with its boundary check never runs there, and \<open>checkGrounded\<close> moves the player out
  of an obstacle's side without looking at the boundary. The player, standing on a low
  column and pushed left by the higher column behind it, goes from \<open>x = - 11.5\<close> to
  \<open>x = - 13.5\<close>, below \<open>GAME_OVER_BOUNDARY = - 13\<close>, and after the whole frame the game
  is still running.
\<close>

theorem pushed_past_boundary:
  "\<not> isGameOver pushedScene
   \<and> px (player (update (keyTick 5000 16 False False False) pushedScene)) = - 27 / 2
   \<and> - 27 / 2 < GAME_OVER_BOUNDARY
   \<and> \<not> isGameOver (update (keyTick 5000 16 False False False) pushedScene)"
proof -
  have run: "\<not> isGameOver pushedScene" by (simp add: pushedScene_fields)
  show ?thesis
    using run
    by (simp only: update_running_player[OF run] update_running_isGameOver[OF run]
          pushed_handleJump)
       (simp add: Let_def handleRotation_player pushed_checkGrounded pushedScene_fields)
qed

subsection \<open>Claim C8\<close>

lemma restartGame_hold_start: "jumpHoldStartTime (restartGame ds s) = jumpHoldStartTime s"
  by (simp add: restartGame_def generateInitialColumns_frame restart_reset_def)

text \<open>
  C8 (failing input). \<open>restartGame\<close> resets \<open>isChargingJump\<close>, \<open>chargeJumpTime\<close> and
  \<open>jumpBufferTime\<close> but not \<open>jumpHoldStartTime\<close>, which \<open>create\<close> sets to \<open>null\<close>.
  A game that ended while the hold was tracked since time 4000 is restarted by a press at
  time 9000: the game runs again and the hold-start timestamp is still 4000, not the
  \<open>null\<close> of a new session.
\<close>

theorem restart_keeps_hold_start:
  "isGameOver heldScene
   \<and> \<not> isGameOver (update (keyTick 9000 16 True False True) heldScene)
   \<and> jumpHoldStartTime (update (keyTick 9000 16 True False True) heldScene) = Some 4000
   \<and> jumpHoldStartTime (create None someDraws) = None"
  by (simp add: update_def heldScene_def restartGame_def generateInitialColumns_frame
        restart_reset_def create_def create_start_def)

end
